theory Spec2Isabelle
  imports Complex_Main "HOL-Library.Word"
begin

unbundle bit_operations_syntax

section \<open>Constants (constants.ts)\<close>

text \<open>
  JavaScript numbers are modelled as \<^typ>\<open>real\<close>; the frame counter \<open>age\<close>, which
  starts at 0 and is only ever incremented, as \<^typ>\<open>nat\<close>.
\<close>

record AudioNote =
  freq :: real
  name :: string

definition PENTATONIC_SCALE :: "AudioNote list" where
  "PENTATONIC_SCALE =
     [\<lparr>freq = 29366 / 100, name = ''D4''\<rparr>,
      \<lparr>freq = 34923 / 100, name = ''F4''\<rparr>,
      \<lparr>freq = 392, name = ''G4''\<rparr>,
      \<lparr>freq = 440, name = ''A4''\<rparr>,
      \<lparr>freq = 52325 / 100, name = ''C5''\<rparr>]"

text \<open>\<open>VISUAL_CONFIG.maxRadius\<close> and \<open>VISUAL_CONFIG.bgColor\<close>.\<close>

definition maxRadius :: real where
  "maxRadius = 80"

definition bgColor :: string where
  "bgColor = ''#C3D0E3''"

text \<open>\<open>SIGNAL_CONFIG.oscAddress\<close>.\<close>

definition oscAddress :: string where
  "oscAddress = ''/sensor/vibration''"

section \<open>A single ripple (class Ripple of RippleCanvas.tsx)\<close>

record Ripple =
  xpos :: real
  ypos :: real
  age :: nat
  maxAge :: nat
  active :: bool

text \<open>The constructor.\<close>

definition new_Ripple :: "real \<Rightarrow> real \<Rightarrow> Ripple" where
  "new_Ripple x y = \<lparr>xpos = x, ypos = y, age = 0, maxAge = 100, active = True\<rparr>"

text \<open>\<open>update()\<close>: \<open>this.age++; if (this.age > this.maxAge) this.active = false\<close>.\<close>

definition update :: "Ripple \<Rightarrow> Ripple" where
  "update r =
     (let r1 = r\<lparr>age := age r + 1\<rparr>
      in if age r1 > maxAge r1 then r1\<lparr>active := False\<rparr> else r1)"

text \<open>
  The calls \<open>draw\<close> makes on the 2D context. An arc is always the full circle
  (\<open>0\<close> to \<open>2 * Math.PI\<close>), so only its centre and radius are kept; of the colours only
  the alpha channel varies.
\<close>

datatype canvas_op =
    Save
  | ShadowBlur real
  | ShadowColorAlpha real
  | StrokeStyleAlpha real
  | LineWidth real
  | BeginPath
  | Arc real real real
  | Stroke
  | Restore
  | FillStyle string
  | FillRect real real real real

definition progress :: "Ripple \<Rightarrow> real" where
  "progress r = real (age r) / real (maxAge r)"

definition currentRadius :: "Ripple \<Rightarrow> real" where
  "currentRadius r = 5 + (maxRadius - 5) * progress r"

definition opacity :: "Ripple \<Rightarrow> real" where
  "opacity r = (let alpha = (8 / 10) * (1 - progress r) in if alpha < 0 then 0 else alpha)"

text \<open>One pass of the ring loop of \<open>draw\<close>, for ring number \<open>i\<close>.\<close>

definition ring :: "Ripple \<Rightarrow> nat \<Rightarrow> canvas_op list" where
  "ring r i =
     (let ringScale = 1 - real i * (15 / 100);
          ringRadius = currentRadius r * ringScale
      in if ringRadius > 0 then [BeginPath, Arc (xpos r) (ypos r) ringRadius, Stroke] else [])"

definition draw :: "Ripple \<Rightarrow> canvas_op list" where
  "draw r =
     [Save,
      ShadowBlur (10 + progress r * 10),
      ShadowColorAlpha (opacity r),
      StrokeStyleAlpha (opacity r),
      LineWidth 2]
     @ concat (map (ring r) [0 ..< 3])
     @ [Restore]"

section \<open>The ripple field (component RippleCanvas)\<close>

text \<open>
  The canvas element, when mounted, with its current width and height; the field owns
  the list \<open>ripplesRef.current\<close>.
\<close>

record Canvas =
  width :: real
  height :: real

record RippleCanvas =
  canvas :: "Canvas option"
  ripples :: "Ripple list"

text \<open>
  \<open>addRipple(x?, y?)\<close>. An omitted coordinate is \<open>None\<close>; \<open>u\<close> and \<open>v\<close> are the values
  the two calls of \<open>Math.random()\<close> would return (each in \<open>[0, 1)\<close>).
\<close>

definition addRipple :: "real option \<Rightarrow> real option \<Rightarrow> real \<Rightarrow> real \<Rightarrow> RippleCanvas \<Rightarrow> RippleCanvas" where
  "addRipple x y u v f =
     (case canvas f of
        None \<Rightarrow> f
      | Some c \<Rightarrow>
          (let targetX = (case x of Some x' \<Rightarrow> x' | None \<Rightarrow> u * width c);
               targetY = (case y of Some y' \<Rightarrow> y' | None \<Rightarrow> v * height c)
           in f\<lparr>ripples := ripples f @ [new_Ripple targetX targetY]\<rparr>))"

datatype error = TypeError

text \<open>\<open>Array.prototype.splice(i, 1)\<close>.\<close>

definition splice1 :: "nat \<Rightarrow> 'a list \<Rightarrow> 'a list" where
  "splice1 i xs = take i xs @ drop (Suc i) xs"

text \<open>
  The loop \<open>for (let i = ripples.length - 1; i >= 0; i--)\<close> of \<open>render\<close>. The first
  argument is \<open>i + 1\<close>, so \<open>0\<close> means that the loop has ended. Reading past the end of
  the array would give \<open>undefined\<close>, and calling \<open>update\<close> on it throws. The third
  argument collects the drawing calls of the frame.
\<close>

fun render_loop :: "nat \<Rightarrow> Ripple list \<Rightarrow> canvas_op list \<Rightarrow> error + (Ripple list \<times> canvas_op list)" where
  "render_loop 0 rs out = Inr (rs, out)"
| "render_loop (Suc i) rs out =
     (if i < length rs then
        (let ripple = update (rs ! i);
             rs1 = rs[i := ripple];
             out1 = out @ draw ripple;
             rs2 = (if \<not> active ripple then splice1 i rs1 else rs1)
         in render_loop i rs2 out1)
      else Inl TypeError)"

text \<open>One call of \<open>render\<close> on a mounted canvas: clear, then the loop.\<close>

definition render :: "Canvas \<Rightarrow> Ripple list \<Rightarrow> error + (Ripple list \<times> canvas_op list)" where
  "render c rs = render_loop (length rs) rs [FillStyle bgColor, FillRect 0 0 (width c) (height c)]"

text \<open>
  What happens to the field: a call of \<open>addRipple\<close>, or a display frame. The render
  loop only exists once the effect has found the canvas mounted. An exception in
  \<open>render\<close> would end the animation, so a run of events stops there.
\<close>

datatype field_event = Spawn "real option" "real option" real real | Frame

fun field_step :: "field_event \<Rightarrow> RippleCanvas \<Rightarrow> error + RippleCanvas" where
  "field_step (Spawn x y u v) f = Inr (addRipple x y u v f)"
| "field_step Frame f =
     (case canvas f of
        None \<Rightarrow> Inr f
      | Some c \<Rightarrow>
          (case render c (ripples f) of
             Inl e \<Rightarrow> Inl e
           | Inr (rs, out) \<Rightarrow> Inr (f\<lparr>ripples := rs\<rparr>)))"

fun field_run :: "field_event list \<Rightarrow> RippleCanvas \<Rightarrow> error + RippleCanvas" where
  "field_run [] f = Inr f"
| "field_run (e # es) f =
     (case field_step e f of Inl err \<Rightarrow> Inl err | Inr f' \<Rightarrow> field_run es f')"

text \<open>The field as mounted, before any trigger.\<close>

definition mounted :: "Canvas \<Rightarrow> RippleCanvas" where
  "mounted c = \<lparr>canvas = Some c, ripples = []\<rparr>"

text \<open>
  The count the specification gives: the spawns of a run whose age, the number of frames
  after them, is at most 100.
\<close>

fun frames :: "field_event list \<Rightarrow> nat" where
  "frames [] = 0"
| "frames (Frame # es) = Suc (frames es)"
| "frames (Spawn x y u v # es) = frames es"

fun live_spawns :: "field_event list \<Rightarrow> nat" where
  "live_spawns [] = 0"
| "live_spawns (Frame # es) = live_spawns es"
| "live_spawns (Spawn x y u v # es) = (if frames es \<le> 100 then 1 else 0) + live_spawns es"

text \<open>What the field guarantees of every ripple it holds between two frames.\<close>

definition fresh :: "Ripple \<Rightarrow> bool" where
  "fresh r = (active r \<and> maxAge r = 100 \<and> age r \<le> 100)"

section \<open>The audio service (class AudioService)\<close>

text \<open>
  The platform's \<open>AudioContextState\<close>. A voice is the oscillator and the gain node
  that one call of \<open>playTone\<close> creates and connects to the destination, with the
  automation scheduled on the oscillator's frequency and on the gain, and the times
  given to \<open>osc.start\<close> and \<open>osc.stop\<close>.
\<close>

datatype AudioContextState = Suspended | Running | Closed

datatype automation =
    SetValueAtTime real real
  | LinearRampToValueAtTime real real
  | ExponentialRampToValueAtTime real real

record Voice =
  osc_type :: string
  osc_frequency :: "automation list"
  gain_gain :: "automation list"
  osc_start :: real
  osc_stop :: real

text \<open>
  The audio context: its state, whether \<open>resume()\<close> has been called and the platform
  has not settled it yet, and the voices that have been connected to its destination, in
  the order of their creation (a voice that has ended is not taken out of the list).
\<close>

record AudioContext =
  ctx_state :: AudioContextState
  pendingResume :: bool
  destination :: "Voice list"

text \<open>
  The service has the two fields of the class. \<open>contextsCreated\<close> is not one of them:
  it is the number of audio contexts that the platform's constructor has returned to the
  service so far, kept beside the fields so that a second construction would show.
\<close>

record AudioService =
  ctx :: "AudioContext option"
  isEnabled :: bool
  contextsCreated :: nat

definition audioService :: AudioService where
  "audioService = \<lparr>ctx = None, isEnabled = False, contextsCreated = 0\<rparr>"

text \<open>
  What \<open>new AudioContextClass()\<close> does on this platform: it throws (no such class), or
  it returns a context that starts suspended or running. Every context it returns is
  counted: the second argument and result of \<open>new_AudioContextClass\<close> is that count.
\<close>

datatype new_AudioContext = Unavailable | StartsSuspended | StartsRunning

definition newContext :: "AudioContextState \<Rightarrow> AudioContext" where
  "newContext st = \<lparr>ctx_state = st, pendingResume = False, destination = []\<rparr>"

definition new_AudioContextClass :: "new_AudioContext \<Rightarrow> nat \<Rightarrow> error + (AudioContext \<times> nat)" where
  "new_AudioContextClass p n =
     (case p of
        Unavailable \<Rightarrow> Inl TypeError
      | StartsSuspended \<Rightarrow> Inr (newContext Suspended, Suc n)
      | StartsRunning \<Rightarrow> Inr (newContext Running, Suc n))"

text \<open>The second statement of \<open>init\<close>: \<open>if (state === 'suspended') resume()\<close>.\<close>

definition resumeIfSuspended :: "AudioService \<Rightarrow> AudioService" where
  "resumeIfSuspended s =
     (case ctx s of
        None \<Rightarrow> s
      | Some c \<Rightarrow>
          if ctx_state c = Suspended then s\<lparr>ctx := Some (c\<lparr>pendingResume := True\<rparr>)\<rparr> else s)"

text \<open>
  \<open>init()\<close>. A thrown exception is \<open>Inl\<close>, with the state the service is left in.
\<close>

definition init :: "new_AudioContext \<Rightarrow> AudioService \<Rightarrow> (error \<times> AudioService) + AudioService" where
  "init p s =
     (case ctx s of
        None \<Rightarrow>
          (case new_AudioContextClass p (contextsCreated s) of
             Inl e \<Rightarrow> Inl (e, s)
           | Inr (c, n) \<Rightarrow>
               Inr (resumeIfSuspended (s\<lparr>ctx := Some c, isEnabled := True, contextsCreated := n\<rparr>)))
      | Some c \<Rightarrow> Inr (resumeIfSuspended s))"

text \<open>
  The platform settling a pending \<open>resume()\<close>: the context starts running. This is the
  only change of state the platform makes here by itself.
\<close>

definition resumeResolved :: "AudioService \<Rightarrow> AudioService" where
  "resumeResolved s =
     (case ctx s of
        None \<Rightarrow> s
      | Some c \<Rightarrow>
          if pendingResume c \<and> ctx_state c = Suspended
          then s\<lparr>ctx := Some (c\<lparr>ctx_state := Running, pendingResume := False\<rparr>)\<rparr>
          else s)"

text \<open>\<open>getContextState()\<close>; \<open>None\<close> is \<open>'uninitialized'\<close>.\<close>

definition getContextState :: "AudioService \<Rightarrow> AudioContextState option" where
  "getContextState s = (case ctx s of Some c \<Rightarrow> Some (ctx_state c) | None \<Rightarrow> None)"

text \<open>The voice \<open>playTone(frequency)\<close> builds when \<open>context.currentTime\<close> is \<open>t\<close>.\<close>

definition voice :: "real \<Rightarrow> real \<Rightarrow> Voice" where
  "voice frequency t =
     (let duration = 15 / 10
      in \<lparr>osc_type = ''sine'',
          osc_frequency = [SetValueAtTime frequency t],
          gain_gain =
            [SetValueAtTime 0 t,
             LinearRampToValueAtTime (8 / 10) (t + 5 / 100),
             ExponentialRampToValueAtTime (1 / 1000) (t + duration)],
          osc_start = t,
          osc_stop = t + duration + 1 / 10\<rparr>)"

definition playTone :: "real \<Rightarrow> real \<Rightarrow> AudioService \<Rightarrow> AudioService" where
  "playTone frequency t s =
     (case ctx s of
        None \<Rightarrow> s
      | Some c \<Rightarrow> s\<lparr>ctx := Some (c\<lparr>destination := destination c @ [voice frequency t]\<rparr>)\<rparr>)"

text \<open>
  \<open>playRandomNote()\<close>; \<open>rnd\<close> is what \<open>Math.random()\<close> returns and \<open>t\<close> the
  context's clock. An index outside the table would give \<open>undefined\<close>, and reading
  \<open>freq\<close> of it throws.
\<close>

definition playRandomNote :: "real \<Rightarrow> real \<Rightarrow> AudioService \<Rightarrow> (error \<times> AudioService) + AudioService" where
  "playRandomNote rnd t s =
     (if ctx s = None \<or> \<not> isEnabled s then Inr s
      else
        (let randomIndex = \<lfloor>rnd * real (length PENTATONIC_SCALE)\<rfloor>
         in if 0 \<le> randomIndex \<and> randomIndex < int (length PENTATONIC_SCALE)
            then Inr (playTone (freq (PENTATONIC_SCALE ! nat randomIndex)) t s)
            else Inl (TypeError, s)))"

text \<open>
  The service on its own: its three public methods, and the platform settling a resume.
  An exception leaves the service in the state it was thrown in.
\<close>

datatype service_op =
    Init new_AudioContext
  | PlayRandomNote real real
  | GetContextState
  | ResumeResolved

definition settle :: "(error \<times> 's) + 's \<Rightarrow> 's" where
  "settle r = (case r of Inl (e, s) \<Rightarrow> s | Inr s \<Rightarrow> s)"

fun service_step :: "service_op \<Rightarrow> AudioService \<Rightarrow> AudioService" where
  "service_step (Init p) s = settle (init p s)"
| "service_step (PlayRandomNote rnd t) s = settle (playRandomNote rnd t s)"
| "service_step GetContextState s = s"
| "service_step ResumeResolved s = resumeResolved s"

fun service_run :: "service_op list \<Rightarrow> AudioService \<Rightarrow> AudioService" where
  "service_run [] s = s"
| "service_run (x # xs) s = service_run xs (service_step x s)"

text \<open>The envelope of the specification, for a voice that starts at \<open>t0\<close>.\<close>

definition enveloped :: "Voice \<Rightarrow> bool" where
  "enveloped v =
     (let t0 = osc_start v
      in gain_gain v =
           [SetValueAtTime 0 t0,
            LinearRampToValueAtTime (8 / 10) (t0 + 5 / 100),
            ExponentialRampToValueAtTime (1 / 1000) (t0 + 15 / 10)]
         \<and> osc_stop v = t0 + 16 / 10)"

section \<open>The application (component App): the trigger dispatcher\<close>

text \<open>
  The state of the component: the audio service singleton, the handle \<open>canvasRef.current\<close>
  of the ripple canvas (absent while it is not mounted), the two pieces of React state,
  whether a call of \<open>requestMIDIAccess()\<close> is waiting for the platform's answer, and
  whether the MIDI inputs and the bridge socket carry their message handler.
\<close>

record App =
  audio :: AudioService
  canvasRef :: "RippleCanvas option"
  audioReady :: bool
  debugMsg :: string
  midiRequested :: bool
  midiHandler :: bool
  socketHandler :: bool

text \<open>
  The component as it is first rendered, before any of its effects has run: the two
  \<open>useState\<close> initial values, no request for MIDI access, no socket, and so no message
  handler anywhere.
\<close>

definition firstRender :: "RippleCanvas option \<Rightarrow> App" where
  "firstRender f =
     \<lparr>audio = audioService, canvasRef = f, audioReady = False,
      debugMsg = ''Waiting for interaction...'',
      midiRequested = False, midiHandler = False, socketHandler = False\<rparr>"

text \<open>
  What the platform supplies while one event is handled: the behaviour of the audio
  context's constructor, the audio clock, and the results of the calls of
  \<open>Math.random()\<close> (for the ripple's two coordinates and for the note).
\<close>

record platform =
  audioPlatform :: new_AudioContext
  currentTime :: real
  randomX :: real
  randomY :: real
  randomNote :: real

text \<open>
  \<open>triggerEffect(x?, y?, source?)\<close>. \<open>if (source)\<close> fails for a source that is not
  given and for the empty string. An exception of the audio service passes through, with
  the state reached when it was thrown.
\<close>

definition triggerEffect :: "platform \<Rightarrow> real option \<Rightarrow> real option \<Rightarrow> string option \<Rightarrow> App \<Rightarrow> (error \<times> App) + App" where
  "triggerEffect p x y source a =
     (let a1 = (case source of
                  Some src \<Rightarrow> if src \<noteq> [] then a\<lparr>debugMsg := ''Trigger: '' @ src\<rparr> else a
                | None \<Rightarrow> a);
          a2 = (case canvasRef a1 of
                  None \<Rightarrow> a1
                | Some f \<Rightarrow> a1\<lparr>canvasRef := Some (addRipple x y (randomX p) (randomY p) f)\<rparr>)
      in if getContextState (audio a2) = Some Running then
           (case playRandomNote (randomNote p) (currentTime p) (audio a2) of
              Inl (e, s) \<Rightarrow> Inl (e, a2\<lparr>audio := s\<rparr>)
            | Inr s \<Rightarrow> Inr (a2\<lparr>audio := s\<rparr>))
         else Inr a2)"

definition startExperience :: "platform \<Rightarrow> App \<Rightarrow> (error \<times> App) + App" where
  "startExperience p a =
     (case init (audioPlatform p) (audio a) of
        Inl (e, s) \<Rightarrow> Inl (e, a\<lparr>audio := s\<rparr>)
      | Inr s \<Rightarrow>
          (let a1 = a\<lparr>audio := s\<rparr>
           in if getContextState s = Some Running \<or> getContextState s = Some Suspended
              then Inr (a1\<lparr>audioReady := True,
                          debugMsg := ''Audio Engine Active. Listening for Signals...''\<rparr>)
              else Inr a1))"

definition handleCanvasClick :: "platform \<Rightarrow> real \<Rightarrow> real \<Rightarrow> App \<Rightarrow> (error \<times> App) + App" where
  "handleCanvasClick p clientX clientY a =
     (case (if \<not> audioReady a then startExperience p a else Inr a) of
        Inl e \<Rightarrow> Inl e
      | Inr a1 \<Rightarrow> triggerEffect p (Some clientX) (Some clientY) (Some ''Click'') a1)"

definition handleKeyDown :: "platform \<Rightarrow> string \<Rightarrow> App \<Rightarrow> (error \<times> App) + App" where
  "handleKeyDown p code a =
     (if code = ''Space'' \<or> code = ''Enter'' then
        (case (if \<not> audioReady a then startExperience p a else Inr a) of
           Inl e \<Rightarrow> Inl e
         | Inr a1 \<Rightarrow> triggerEffect p None None (Some ''Keyboard'') a1)
      else Inr a)"

text \<open>Decimal digits of a number, as the template string prints the note.\<close>

function decimal :: "nat \<Rightarrow> string" where
  "decimal n = (if n < 10 then [char_of (48 + n)] else decimal (n div 10) @ [char_of (48 + n mod 10)])"
  by pat_completeness auto
termination
  by (relation "measure id") auto

declare decimal.simps [simp del]

text \<open>
  \<open>onMIDIMessage\<close>. \<open>event.data\<close> is a byte array; destructuring gives \<open>undefined\<close>
  for a byte it does not have, \<open>undefined & 0xF0\<close> is \<open>0\<close> and \<open>undefined > 0\<close> is
  false.
\<close>

definition nth_opt :: "'a list \<Rightarrow> nat \<Rightarrow> 'a option" where
  "nth_opt xs i = (if i < length xs then Some (xs ! i) else None)"

definition onMIDIMessage :: "platform \<Rightarrow> 8 word list \<Rightarrow> App \<Rightarrow> (error \<times> App) + App" where
  "onMIDIMessage p data a =
     (let status = nth_opt data 0; note = nth_opt data 1; velocity = nth_opt data 2
      in if (case status of Some b \<Rightarrow> b AND 0xF0 | None \<Rightarrow> 0) = 0x90
            \<and> (case velocity of Some v \<Rightarrow> v > 0 | None \<Rightarrow> False)
         then triggerEffect p None None
                (Some (''MIDI Note '' @ (case note of Some n \<Rightarrow> decimal (unat n) | None \<Rightarrow> ''undefined''))) a
         else Inr a)"

text \<open>
  The values \<open>JSON.parse\<close> returns. An object is the list of its properties. Reading a
  property of \<open>null\<close> throws; a value without the property gives \<open>undefined\<close>
  (\<open>None\<close>).
\<close>

datatype json =
    JNull
  | JBool bool
  | JNumber real
  | JString string
  | JArray "json list"
  | JObject "(string \<times> json) list"

definition get_property :: "json \<Rightarrow> string \<Rightarrow> error + json option" where
  "get_property v k =
     (case v of
        JNull \<Rightarrow> Inl TypeError
      | JObject kvs \<Rightarrow> Inr (map_of kvs k)
      | _ \<Rightarrow> Inr None)"

text \<open>\<open>String.prototype.includes\<close>.\<close>

primrec includes_str :: "string \<Rightarrow> string \<Rightarrow> bool" where
  "includes_str [] sub = (sub = [])"
| "includes_str (c # cs) sub = (take (length sub) (c # cs) = sub \<or> includes_str cs sub)"

text \<open>
  \<open>event.data\<close> of a socket message is a string, or binary data, which \<open>JSON.parse\<close>
  first turns into a string.
\<close>

datatype message_data = TextData string | BinaryData

definition toString :: "message_data \<Rightarrow> string" where
  "toString d = (case d of TextData txt \<Rightarrow> txt | BinaryData \<Rightarrow> ''[object Blob]'')"

text \<open>The \<open>catch\<close> block of \<open>socket.onmessage\<close>.\<close>

definition onmessage_catch :: "platform \<Rightarrow> message_data \<Rightarrow> App \<Rightarrow> (error \<times> App) + App" where
  "onmessage_catch p d a =
     (case d of
        TextData txt \<Rightarrow>
          if includes_str txt ''vibration''
          then triggerEffect p None None (Some ''OSC Signal'') a
          else Inr a
      | BinaryData \<Rightarrow> Inr a)"

text \<open>
  \<open>socket.onmessage\<close>. \<open>JSON_parse\<close> is the platform's \<open>JSON.parse\<close>, \<open>None\<close> where
  it throws a syntax error. Whatever is thrown inside the \<open>try\<close> block, by the parser,
  by reading \<open>data.address\<close> or by \<open>triggerEffect\<close>, ends in the \<open>catch\<close> block.
\<close>

definition onmessage :: "(string \<Rightarrow> json option) \<Rightarrow> platform \<Rightarrow> message_data \<Rightarrow> App \<Rightarrow> (error \<times> App) + App" where
  "onmessage JSON_parse p d a =
     (case JSON_parse (toString d) of
        None \<Rightarrow> onmessage_catch p d a
      | Some data \<Rightarrow>
          (case get_property data ''address'' of
             Inl e \<Rightarrow> onmessage_catch p d a
           | Inr address \<Rightarrow>
               if address = Some (JString oscAddress) then
                 (case triggerEffect p None None (Some ''OSC Signal'') a of
                    Inl (e, a') \<Rightarrow> onmessage_catch p d a'
                  | Inr a' \<Rightarrow> Inr a')
               else Inr a))"

text \<open>
  The two effects that depend on \<open>audioReady\<close>.

  The MIDI effect: \<open>if (!audioReady) return;\<close> and otherwise, where the browser has
  it, \<open>requestMIDIAccess()\<close>, whose promise the platform settles later (a browser
  without it is one that never answers). Only the callback of a granted request puts
  \<open>onMIDIMessage\<close> on the inputs.

  The socket effect: React first runs the cleanup of the effect's last run, which closes
  the socket that run had opened; then \<open>if (!audioReady) return;\<close> and otherwise a new
  socket with its \<open>onopen\<close> and \<open>onmessage\<close>. A constructor that throws is caught; it
  leaves a bridge that never opens and never sends.
\<close>

definition midiEffect :: "App \<Rightarrow> App" where
  "midiEffect a = (if \<not> audioReady a then a else a\<lparr>midiRequested := True\<rparr>)"

definition socketEffect :: "App \<Rightarrow> App" where
  "socketEffect a =
     (let a1 = a\<lparr>socketHandler := False\<rparr>
      in if \<not> audioReady a1 then a1 else a1\<lparr>socketHandler := True\<rparr>)"

text \<open>
  React runs both effects, in the order of their declaration, after the first render
  (the mount) and after every render in which \<open>audioReady\<close> has changed.
\<close>

definition runEffects :: "App \<Rightarrow> App" where
  "runEffects a = socketEffect (midiEffect a)"

definition initialApp :: "RippleCanvas option \<Rightarrow> App" where
  "initialApp f = runEffects (firstRender f)"

definition effects :: "App \<Rightarrow> App \<Rightarrow> App" where
  "effects old new = (if audioReady new \<noteq> audioReady old then runEffects new else new)"

text \<open>
  The events the component receives. The start button is only rendered while
  \<open>audioReady\<close> is false; a MIDI or socket message reaches the component only through
  a handler that has been put in place. The platform grants or denies a request for
  MIDI access, and opens the bridge socket, at some later time.
\<close>

datatype event =
    Click real real
  | StartButton
  | KeyDown string
  | MIDIMessage "8 word list"
  | MIDIAccessGranted
  | MIDIAccessDenied
  | SocketMessage message_data
  | SocketOpened
  | AudioResumed
  | AnimationFrame

fun handle :: "(string \<Rightarrow> json option) \<Rightarrow> platform \<Rightarrow> event \<Rightarrow> App \<Rightarrow> (error \<times> App) + App" where
  "handle J p (Click clientX clientY) a = handleCanvasClick p clientX clientY a"
| "handle J p StartButton a = (if \<not> audioReady a then startExperience p a else Inr a)"
| "handle J p (KeyDown code) a = handleKeyDown p code a"
| "handle J p (MIDIMessage data) a = (if midiHandler a then onMIDIMessage p data a else Inr a)"
| "handle J p MIDIAccessGranted a =
     (if midiRequested a
      then Inr (a\<lparr>midiRequested := False, debugMsg := ''MIDI Connected'', midiHandler := True\<rparr>)
      else Inr a)"
| "handle J p MIDIAccessDenied a =
     (if midiRequested a then Inr (a\<lparr>midiRequested := False\<rparr>) else Inr a)"
| "handle J p (SocketMessage d) a = (if socketHandler a then onmessage J p d a else Inr a)"
| "handle J p SocketOpened a =
     (if socketHandler a then Inr (a\<lparr>debugMsg := ''OSC/WS Bridge Connected''\<rparr>) else Inr a)"
| "handle J p AudioResumed a = Inr (a\<lparr>audio := resumeResolved (audio a)\<rparr>)"
| "handle J p AnimationFrame a =
     (case canvasRef a of
        None \<Rightarrow> Inr a
      | Some f \<Rightarrow>
          (case field_step Frame f of
             Inl e \<Rightarrow> Inl (e, a)
           | Inr f' \<Rightarrow> Inr (a\<lparr>canvasRef := Some f'\<rparr>)))"

definition step :: "(string \<Rightarrow> json option) \<Rightarrow> platform \<times> event \<Rightarrow> App \<Rightarrow> App" where
  "step J pe a = effects a (settle (handle J (fst pe) (snd pe) a))"

fun run :: "(string \<Rightarrow> json option) \<Rightarrow> (platform \<times> event) list \<Rightarrow> App \<Rightarrow> App" where
  "run J [] a = a"
| "run J (pe # pes) a = run J pes (step J pe a)"

text \<open>The number of ripples the canvas holds.\<close>

definition rippleCount :: "App \<Rightarrow> nat" where
  "rippleCount a = (case canvasRef a of None \<Rightarrow> 0 | Some f \<Rightarrow> length (ripples f))"

text \<open>
  The rule of the specification for a MIDI message: the status byte's high nibble is the
  Note-On code and the velocity byte is not zero.
\<close>

definition noteOn :: "8 word list \<Rightarrow> bool" where
  "noteOn data =
     (case data of
        status # note # velocity # rest \<Rightarrow> drop_bit 4 status = 0x9 \<and> velocity \<noteq> 0
      | _ \<Rightarrow> False)"

text \<open>Whether a \<open>resume()\<close> of the service's context is waiting for the platform.\<close>

definition resumeRequested :: "AudioService \<Rightarrow> bool" where
  "resumeRequested s = (case ctx s of None \<Rightarrow> False | Some c \<Rightarrow> pendingResume c)"

text \<open>What holds of the audio service in every state it reaches.\<close>

definition sound :: "AudioService \<Rightarrow> bool" where
  "sound s = (case ctx s of None \<Rightarrow> \<not> isEnabled s \<and> contextsCreated s = 0
     | Some c \<Rightarrow> isEnabled s \<and> contextsCreated s = 1 \<and> ctx_state c \<noteq> Closed
         \<and> (ctx_state c = Suspended \<longrightarrow> pendingResume c)
         \<and> list_all enveloped (destination c))"

text \<open>The voices connected to the destination of the service's context.\<close>

definition voices :: "AudioService \<Rightarrow> Voice list" where
  "voices s = (case ctx s of None \<Rightarrow> [] | Some c \<Rightarrow> destination c)"

text \<open>
  \<open>evolves s s'\<close>: the service gets from \<open>s\<close> to \<open>s'\<close> by calls of its methods and
  by the platform settling a resume.
\<close>

definition evolves :: "AudioService \<Rightarrow> AudioService \<Rightarrow> bool" where
  "evolves s s' = (\<exists>xs. s' = service_run xs s)"

text \<open>Whether the canvas handle is there and its canvas element is mounted.\<close>

definition mountedApp :: "App \<Rightarrow> bool" where
  "mountedApp a = (case canvasRef a of None \<Rightarrow> False | Some f \<Rightarrow> canvas f \<noteq> None)"

text \<open>
  What every handler leaves in place: the socket's handler, \<open>audioReady\<close> once it is
  true, and an audio service that has only evolved; it makes no request for MIDI access,
  and it puts the MIDI handler in place only where a request was waiting. \<open>linked\<close> is
  the invariant that a request or a message handler only exists once \<open>audioReady\<close> is
  true.
\<close>

definition keeps :: "App \<Rightarrow> App \<Rightarrow> bool" where
  "keeps a a' =
     ((midiRequested a' \<longrightarrow> midiRequested a)
      \<and> (midiHandler a' \<longrightarrow> midiHandler a \<or> midiRequested a)
      \<and> socketHandler a' = socketHandler a
      \<and> (audioReady a \<longrightarrow> audioReady a') \<and> evolves (audio a) (audio a'))"

definition linked :: "App \<Rightarrow> bool" where
  "linked a =
     ((midiRequested a \<longrightarrow> audioReady a) \<and> (midiHandler a \<longrightarrow> audioReady a)
      \<and> (socketHandler a \<longrightarrow> audioReady a))"

text \<open>
  The values of \<open>JSON.parse\<close> on the messages of the specification's examples and on
  \<open>null\<close>. Every other text is treated as a syntax error here, so this table stands for
  the platform's parser only where a statement is tried on these messages.
\<close>

definition bridgeExamples :: "string \<Rightarrow> json option" where
  \<open>bridgeExamples txt =
     (if txt = ''{"address":"/sensor/vibration","args":[]}''
      then Some (JObject [(''address'', JString ''/sensor/vibration''), (''args'', JArray [])])
      else if txt = ''{"address":"/other"}''
      then Some (JObject [(''address'', JString ''/other'')])
      else if txt = ''null'' then Some JNull
      else None)\<close>

section \<open>Ripple lemmas\<close>

lemma render_loop_take:
  "k \<le> length rs \<Longrightarrow>
   render_loop k rs out =
     Inr (filter active (map update (take k rs)) @ drop k rs,
          out @ concat (map (\<lambda>r. draw (update r)) (rev (take k rs))))"
proof (induction k arbitrary: rs out)
  case 0
  then show ?case by simp
next
  case (Suc k)
  then have k: "k < length rs" by simp
  let ?r = "update (rs ! k)"
  have tk: "take (Suc k) rs = take k rs @ [rs ! k]"
    using k by (simp add: take_Suc_conv_app_nth)
  show ?case
  proof (cases "active ?r")
    case True
    have "render_loop (Suc k) rs out = render_loop k (rs[k := ?r]) (out @ draw ?r)"
      using k True by (simp add: Let_def)
    also have "\<dots> = Inr (filter active (map update (take k (rs[k := ?r]))) @ drop k (rs[k := ?r]),
        (out @ draw ?r) @ concat (map (\<lambda>r. draw (update r)) (rev (take k (rs[k := ?r])))))"
      using k by (intro Suc.IH) simp
    also have "drop k (rs[k := ?r]) = ?r # drop (Suc k) rs"
      using k by (simp add: drop_update_cancel Cons_nth_drop_Suc[symmetric] upd_conv_take_nth_drop)
    finally show ?thesis using True tk by simp
  next
    case False
    have "render_loop (Suc k) rs out = render_loop k (splice1 k (rs[k := ?r])) (out @ draw ?r)"
      using k False by (simp add: Let_def)
    also have "splice1 k (rs[k := ?r]) = take k rs @ drop (Suc k) rs"
      by (simp add: splice1_def)
    also have "render_loop k (take k rs @ drop (Suc k) rs) (out @ draw ?r) =
        Inr (filter active (map update (take k (take k rs @ drop (Suc k) rs)))
               @ drop k (take k rs @ drop (Suc k) rs),
             (out @ draw ?r) @ concat (map (\<lambda>r. draw (update r)) (rev (take k (take k rs @ drop (Suc k) rs)))))"
      using k by (intro Suc.IH) simp
    finally show ?thesis using False tk k by (simp add: min_def)
  qed
qed

lemma render_eq:
  "render c rs =
     Inr (filter active (map update rs),
          [FillStyle bgColor, FillRect 0 0 (width c) (height c)]
            @ concat (map (\<lambda>r. draw (update r)) (rev rs)))"
  unfolding render_def by (subst render_loop_take) simp_all

lemma funpow_update:
  "(update ^^ k) (new_Ripple x y) = \<lparr>xpos = x, ypos = y, age = k, maxAge = 100, active = (k \<le> 100)\<rparr>"
  by (induction k) (auto simp: new_Ripple_def update_def Let_def)

lemma fresh_pass:
  "list_all fresh rs \<Longrightarrow> list_all fresh (filter active (map update rs))"
  by (induction rs) (auto simp: fresh_def update_def Let_def)

lemma count_pass:
  "list_all fresh rs \<Longrightarrow>
   length (filter (\<lambda>r. age r + n \<le> 100) (filter active (map update rs))) =
   length (filter (\<lambda>r. age r + Suc n \<le> 100) rs)"
  by (induction rs) (auto simp: fresh_def update_def Let_def)

lemma field_run_count:
  "canvas f = Some c \<Longrightarrow> list_all fresh (ripples f) \<Longrightarrow>
   \<exists>f'. field_run es f = Inr f' \<and> canvas f' = Some c \<and> list_all fresh (ripples f') \<and>
     length (ripples f') = length (filter (\<lambda>r. age r + frames es \<le> 100) (ripples f)) + live_spawns es"
proof (induction es arbitrary: f)
  case Nil
  then show ?case by (simp add: fresh_def list_all_iff)
next
  case (Cons e es)
  show ?case
  proof (cases e)
    case (Spawn x y u v)
    let ?f = "addRipple x y u v f"
    have a: "canvas ?f = Some c" "list_all fresh (ripples ?f)"
      and r: "ripples ?f = ripples f @ [new_Ripple (case x of Some a \<Rightarrow> a | None \<Rightarrow> u * width c) (case y of Some a \<Rightarrow> a | None \<Rightarrow> v * height c)]"
      using Cons.prems by (simp_all add: addRipple_def Let_def) (simp add: fresh_def new_Ripple_def)
    from Cons.IH [OF a] obtain f' where f': "field_run es ?f = Inr f'" "canvas f' = Some c"
      "list_all fresh (ripples f')"
      "length (ripples f') = length (filter (\<lambda>r. age r + frames es \<le> 100) (ripples ?f)) + live_spawns es"
      by blast
    show ?thesis using f' Spawn r by (simp add: new_Ripple_def)
  next
    case Frame
    let ?f = "f\<lparr>ripples := filter active (map update (ripples f))\<rparr>"
    have st: "field_step Frame f = Inr ?f"
      using Cons.prems by (simp add: render_eq)
    have a: "canvas ?f = Some c" "list_all fresh (ripples ?f)"
      using Cons.prems by (simp_all add: fresh_pass)
    from Cons.IH [OF a] obtain f' where f': "field_run es ?f = Inr f'" "canvas f' = Some c"
      "list_all fresh (ripples f')"
      "length (ripples f') = length (filter (\<lambda>r. age r + frames es \<le> 100) (ripples ?f)) + live_spawns es"
      by blast
    have "length (ripples f') =
        length (filter (\<lambda>r. age r + Suc (frames es) \<le> 100) (ripples f)) + live_spawns es"
      using f'(4) count_pass [OF Cons.prems(2), of "frames es"] by simp
    then show ?thesis using f'(1-3) Frame st by simp
  qed
qed

lemma field_run_mounted:
  "\<exists>f. field_run es (mounted c) = Inr f \<and> canvas f = Some c \<and> list_all fresh (ripples f) \<and>
     length (ripples f) = live_spawns es"
  using field_run_count [of "mounted c" c es] by (simp add: mounted_def)

lemma frames_replicate: "frames (replicate n Frame) = n"
  by (induction n) auto

lemma live_replicate: "live_spawns (replicate n Frame) = 0"
  by (induction n) auto

section \<open>The claims about the ripple field\<close>

text \<open>
  C6. On a mounted canvas every run of spawns and frames ends without an exception, and
  the number of ripples the field then holds is the number of spawns that at most 100
  frames have followed. After a single spawn, 101 frames or more (150, say) leave the
  field empty, and it stays empty under further frames. One pass of \<open>render\<close> updates
  every ripple of the list once and draws it once, last to first, and keeps those still
  active: removing one neither skips nor repeats another.
\<close>

theorem field_entity_count:
  "(\<exists>f. field_run es (mounted c) = Inr f \<and> length (ripples f) = live_spawns es)
   \<and> (\<exists>f. field_run (Spawn x y u v # replicate (101 + n) Frame) (mounted c) = Inr f \<and> ripples f = [])
   \<and> render c rs =
       Inr (filter active (map update rs),
            [FillStyle bgColor, FillRect 0 0 (width c) (height c)]
              @ concat (map (\<lambda>r. draw (update r)) (rev rs)))"
proof (intro conjI)
  show "\<exists>f. field_run es (mounted c) = Inr f \<and> length (ripples f) = live_spawns es"
    using field_run_mounted [of es c] by blast
  obtain f where f: "field_run (Spawn x y u v # replicate (101 + n) Frame) (mounted c) = Inr f"
    "length (ripples f) = live_spawns (Spawn x y u v # replicate (101 + n) Frame)"
    using field_run_mounted [of "Spawn x y u v # replicate (101 + n) Frame" c] by blast
  have "live_spawns (Spawn x y u v # replicate (101 + n) Frame) = 0"
    by (simp add: frames_replicate live_replicate)
  with f show "\<exists>f. field_run (Spawn x y u v # replicate (101 + n) Frame) (mounted c) = Inr f \<and> ripples f = []"
    by simp
  show "render c rs =
       Inr (filter active (map update rs),
            [FillStyle bgColor, FillRect 0 0 (width c) (height c)]
              @ concat (map (\<lambda>r. draw (update r)) (rev rs)))"
    by (rule render_eq)
qed

theorem field_entity_count_witness:
  "(\<exists>f. field_run [Spawn None None (1 / 2) (1 / 4), Frame, Spawn (Some 3) (Some 4) 0 0, Frame]
          (mounted \<lparr>width = 800, height = 600\<rparr>) = Inr f \<and> length (ripples f) = 2)
   \<and> (\<exists>f. field_run (Spawn (Some 3) (Some 4) 0 0 # replicate 150 Frame)
          (mounted \<lparr>width = 800, height = 600\<rparr>) = Inr f \<and> ripples f = [])"
proof -
  let ?es = "[Spawn None None (1 / 2) (1 / 4), Frame, Spawn (Some 3) (Some 4) 0 0, Frame]"
  let ?c = "\<lparr>width = 800, height = 600\<rparr>"
  note t = field_entity_count [of ?es ?c "Some 3" "Some 4" 0 0 49 "[]"]
  have ls: "live_spawns ?es = 2" by simp
  have n: "(101::nat) + 49 = 150" by simp
  from t have "\<exists>f. field_run ?es (mounted ?c) = Inr f \<and> length (ripples f) = live_spawns ?es"
    by (rule conjunct1)
  then have 1: "\<exists>f. field_run ?es (mounted ?c) = Inr f \<and> length (ripples f) = 2"
    by (simp only: ls)
  from t have "\<exists>f. field_run (Spawn (Some 3) (Some 4) 0 0 # replicate (101 + 49) Frame) (mounted ?c) = Inr f
      \<and> ripples f = []"
    by (rule conjunct1 [OF conjunct2])
  then have 2: "\<exists>f. field_run (Spawn (Some 3) (Some 4) 0 0 # replicate 150 Frame) (mounted ?c) = Inr f
      \<and> ripples f = []"
    by (simp only: n)
  from 1 2 show ?thesis by (rule conjI)
qed

section \<open>The claims about a single ripple\<close>

lemma fresh_inv: "list_all fresh rs \<Longrightarrow> list_all (\<lambda>r. active r \<and> age r \<le> maxAge r) rs"
  by (induction rs) (auto simp: fresh_def)

text \<open>
  C2, as the code has it. After its creation and after every update a ripple satisfies
  \<open>active = (age \<le> maxAge)\<close>. Between two frames the field holds active ripples only,
  so a ripple that has become inactive is never updated again and never drawn in a later
  frame. In the pass in which its age first exceeds \<open>maxAge\<close> it is updated, drawn once
  more (with opacity 0) and then removed: \<open>render\<close> draws every ripple right after
  updating it and looks at \<open>active\<close> only afterwards.
\<close>

theorem ripple_lifecycle:
  "active ((update ^^ k) (new_Ripple x y)) =
     (age ((update ^^ k) (new_Ripple x y)) \<le> maxAge ((update ^^ k) (new_Ripple x y)))
   \<and> (\<exists>f. field_run es (mounted c) = Inr f
          \<and> list_all (\<lambda>r. active r \<and> age r \<le> maxAge r) (ripples f))
   \<and> render c rs =
       Inr (filter active (map update rs),
            [FillStyle bgColor, FillRect 0 0 (width c) (height c)]
              @ concat (map (\<lambda>r. draw (update r)) (rev rs)))
   \<and> opacity ((update ^^ 101) (new_Ripple x y)) = 0"
proof (intro conjI)
  show "opacity ((update ^^ 101) (new_Ripple x y)) = 0"
    by (simp add: funpow_update opacity_def progress_def)
  show "active ((update ^^ k) (new_Ripple x y)) =
     (age ((update ^^ k) (new_Ripple x y)) \<le> maxAge ((update ^^ k) (new_Ripple x y)))"
    by (simp add: funpow_update)
  show "\<exists>f. field_run es (mounted c) = Inr f
          \<and> list_all (\<lambda>r. active r \<and> age r \<le> maxAge r) (ripples f)"
    using field_run_mounted [of es c] fresh_inv by blast
  show "render c rs =
       Inr (filter active (map update rs),
            [FillStyle bgColor, FillRect 0 0 (width c) (height c)]
              @ concat (map (\<lambda>r. draw (update r)) (rev rs)))"
    by (rule render_eq)
qed

theorem ripple_lifecycle_witness:
  "active ((update ^^ 101) (new_Ripple 3 4)) =
     (age ((update ^^ 101) (new_Ripple 3 4)) \<le> maxAge ((update ^^ 101) (new_Ripple 3 4)))
   \<and> (\<exists>f. field_run [Spawn (Some 3) (Some 4) 0 0, Frame] (mounted \<lparr>width = 800, height = 600\<rparr>) = Inr f
          \<and> list_all (\<lambda>r. active r \<and> age r \<le> maxAge r) (ripples f))
   \<and> render \<lparr>width = 800, height = 600\<rparr> [] = Inr ([], [FillStyle bgColor, FillRect 0 0 800 600])
   \<and> opacity ((update ^^ 101) (new_Ripple 3 4)) = 0"
  using ripple_lifecycle [of 101 3 4 "[Spawn (Some 3) (Some 4) 0 0, Frame]" "\<lparr>width = 800, height = 600\<rparr>" "[]"]
  by simp

text \<open>
  A ripple of age 100, as it is after 100 frames, is made inactive by the update of the
  next frame, and that frame still draws it.
\<close>

theorem inactive_ripple_drawn:
  "(update ^^ 100) (new_Ripple 0 0) = \<lparr>xpos = 0, ypos = 0, age = 100, maxAge = 100, active = True\<rparr>
   \<and> \<not> active (update \<lparr>xpos = 0, ypos = 0, age = 100, maxAge = 100, active = True\<rparr>)
   \<and> render \<lparr>width = 800, height = 600\<rparr> [\<lparr>xpos = 0, ypos = 0, age = 100, maxAge = 100, active = True\<rparr>] =
       Inr ([], [FillStyle ''#C3D0E3'', FillRect 0 0 800 600] @
                draw (update \<lparr>xpos = 0, ypos = 0, age = 100, maxAge = 100, active = True\<rparr>))
   \<and> draw (update \<lparr>xpos = 0, ypos = 0, age = 100, maxAge = 100, active = True\<rparr>) =
       [Save, ShadowBlur (201 / 10), ShadowColorAlpha 0, StrokeStyleAlpha 0, LineWidth 2,
        BeginPath, Arc 0 0 (323 / 4), Stroke,
        BeginPath, Arc 0 0 (5491 / 80), Stroke,
        BeginPath, Arc 0 0 (2261 / 40), Stroke, Restore]"
proof (intro conjI)
  show "(update ^^ 100) (new_Ripple 0 0) = \<lparr>xpos = 0, ypos = 0, age = 100, maxAge = 100, active = True\<rparr>"
    by (simp add: funpow_update)
  show "\<not> active (update \<lparr>xpos = 0, ypos = 0, age = 100, maxAge = 100, active = True\<rparr>)"
    by (simp add: update_def)
  show "render \<lparr>width = 800, height = 600\<rparr> [\<lparr>xpos = 0, ypos = 0, age = 100, maxAge = 100, active = True\<rparr>] =
       Inr ([], [FillStyle ''#C3D0E3'', FillRect 0 0 800 600] @
                draw (update \<lparr>xpos = 0, ypos = 0, age = 100, maxAge = 100, active = True\<rparr>))"
    by (simp add: render_eq bgColor_def) (simp add: update_def)
  show "draw (update \<lparr>xpos = 0, ypos = 0, age = 100, maxAge = 100, active = True\<rparr>) =
       [Save, ShadowBlur (201 / 10), ShadowColorAlpha 0, StrokeStyleAlpha 0, LineWidth 2,
        BeginPath, Arc 0 0 (323 / 4), Stroke,
        BeginPath, Arc 0 0 (5491 / 80), Stroke,
        BeginPath, Arc 0 0 (2261 / 40), Stroke, Restore]"
    by (simp add: draw_def ring_def update_def opacity_def progress_def currentRadius_def maxRadius_def
        upt_rec numeral_3_eq_3 Let_def)
qed


lemma radius_funpow:
  "currentRadius ((update ^^ k) (new_Ripple x y)) = 5 + 75 * (real k / 100)"
  by (simp add: funpow_update currentRadius_def progress_def maxRadius_def)

text \<open>
  After \<open>k\<close> updates a ripple has age \<open>k\<close> and the first arc of \<open>draw\<close> has the
  radius \<open>5 + (maxRadius - 5) * (k / 100)\<close>, where \<open>maxRadius = 80\<close>. The radius grows
  strictly with the age and is never below 5; up to age \<open>maxAge = 100\<close> it is at most 80.
\<close>

lemma radius_while_active:
  "age ((update ^^ k) (new_Ripple x y)) = k
   \<and> currentRadius ((update ^^ k) (new_Ripple x y)) = 5 + (maxRadius - 5) * (real k / 100)
   \<and> maxRadius = 80
   \<and> draw ((update ^^ k) (new_Ripple x y)) ! 6 = Arc x y (currentRadius ((update ^^ k) (new_Ripple x y)))
   \<and> (k < k' \<longrightarrow> currentRadius ((update ^^ k) (new_Ripple x y)) < currentRadius ((update ^^ k') (new_Ripple x y)))
   \<and> 5 \<le> currentRadius ((update ^^ k) (new_Ripple x y))
   \<and> (k \<le> 100 \<longrightarrow> currentRadius ((update ^^ k) (new_Ripple x y)) \<le> 80)"
proof (intro conjI impI)
  let ?r = "(update ^^ k) (new_Ripple x y)"
  show "age ?r = k" by (simp add: funpow_update)
  show "currentRadius ?r = 5 + (maxRadius - 5) * (real k / 100)"
    by (simp add: radius_funpow maxRadius_def)
  show "maxRadius = 80" by (simp add: maxRadius_def)
  have pos: "currentRadius ?r > 0" by (simp add: radius_funpow add_pos_nonneg)
  show "draw ?r ! 6 = Arc x y (currentRadius ?r)"
    using pos by (simp add: draw_def ring_def upt_rec numeral_3_eq_3 Let_def) (simp add: funpow_update)
  show "5 \<le> currentRadius ?r" by (simp add: radius_funpow)
next
  assume "k \<le> 100"
  then show "currentRadius ((update ^^ k) (new_Ripple x y)) \<le> 80" by (simp add: radius_funpow)
next
  assume "k < k'"
  then show "currentRadius ((update ^^ k) (new_Ripple x y)) < currentRadius ((update ^^ k') (new_Ripple x y))"
    by (simp add: radius_funpow)
qed

text \<open>
  C3. The claim keeps the radius of every drawn frame within \<open>[5, 80]\<close>, as the comments
  of \<open>draw\<close> do (progress from 0 to 1, the radius from 5px to 80px). The code does not:
  the frame after the hundredth takes the ripple from age 100 to age 101, which makes it
  inactive, and draws it before it looks at \<open>active\<close>. In that call of \<open>draw\<close> the
  progress is 1.01 and the radius of the first arc is 80.75; the opacity is clamped (to
  0), the radius is not.
\<close>

theorem radius_exceeds_maxRadius:
  "render \<lparr>width = 800, height = 600\<rparr> [(update ^^ 100) (new_Ripple 0 0)] =
       Inr ([], [FillStyle ''#C3D0E3'', FillRect 0 0 800 600] @ draw ((update ^^ 101) (new_Ripple 0 0)))
   \<and> draw ((update ^^ 101) (new_Ripple 0 0)) ! 6 = Arc 0 0 (currentRadius ((update ^^ 101) (new_Ripple 0 0)))
   \<and> progress ((update ^^ 101) (new_Ripple 0 0)) = 101 / 100
   \<and> opacity ((update ^^ 101) (new_Ripple 0 0)) = 0
   \<and> currentRadius ((update ^^ 101) (new_Ripple 0 0)) = 323 / 4
   \<and> \<not> currentRadius ((update ^^ 101) (new_Ripple 0 0)) \<le> maxRadius"
proof (intro conjI)
  have u: "update ((update ^^ 100) (new_Ripple 0 0)) = (update ^^ 101) (new_Ripple 0 0)"
    by (simp add: funpow_update update_def)
  have a: "\<not> active ((update ^^ 101) (new_Ripple 0 0))"
    by (simp add: funpow_update)
  show "render \<lparr>width = 800, height = 600\<rparr> [(update ^^ 100) (new_Ripple 0 0)] =
       Inr ([], [FillStyle ''#C3D0E3'', FillRect 0 0 800 600] @ draw ((update ^^ 101) (new_Ripple 0 0)))"
    using a by (simp add: render_eq u bgColor_def)
  show "progress ((update ^^ 101) (new_Ripple 0 0)) = 101 / 100"
    by (simp add: funpow_update progress_def)
  show "opacity ((update ^^ 101) (new_Ripple 0 0)) = 0"
    by (simp add: funpow_update opacity_def progress_def)
  show "currentRadius ((update ^^ 101) (new_Ripple 0 0)) = 323 / 4"
    by (simp add: radius_funpow)
  then show "\<not> currentRadius ((update ^^ 101) (new_Ripple 0 0)) \<le> maxRadius"
    by (simp add: maxRadius_def)
  show "draw ((update ^^ 101) (new_Ripple 0 0)) ! 6 = Arc 0 0 (currentRadius ((update ^^ 101) (new_Ripple 0 0)))"
    by (simp add: draw_def ring_def upt_rec numeral_3_eq_3 Let_def radius_funpow) (simp add: funpow_update)
qed

text \<open>
  C10. Without a mounted canvas \<open>addRipple\<close> leaves the field as it is, and it never
  throws. With a mounted canvas it appends exactly one ripple of age 0, at the given
  coordinates; a coordinate that is not given is the result of its own call of
  \<open>Math.random()\<close> scaled by the canvas width or height, and so lies within the canvas.
\<close>

theorem addRipple_spawn:
  "addRipple x y u v \<lparr>canvas = None, ripples = rs\<rparr> = \<lparr>canvas = None, ripples = rs\<rparr>
   \<and> field_step (Spawn x y u v) f = Inr (addRipple x y u v f)
   \<and> addRipple x y u v \<lparr>canvas = Some c, ripples = rs\<rparr> =
       \<lparr>canvas = Some c,
        ripples = rs @ [\<lparr>xpos = (case x of Some x' \<Rightarrow> x' | None \<Rightarrow> u * width c),
                        ypos = (case y of Some y' \<Rightarrow> y' | None \<Rightarrow> v * height c),
                        age = 0, maxAge = 100, active = True\<rparr>]\<rparr>
   \<and> (0 \<le> u \<and> u < 1 \<and> 0 < width c \<longrightarrow>
        0 \<le> xpos (last (ripples (addRipple None y u v \<lparr>canvas = Some c, ripples = rs\<rparr>)))
        \<and> xpos (last (ripples (addRipple None y u v \<lparr>canvas = Some c, ripples = rs\<rparr>))) < width c)
   \<and> (0 \<le> v \<and> v < 1 \<and> 0 < height c \<longrightarrow>
        0 \<le> ypos (last (ripples (addRipple x None u v \<lparr>canvas = Some c, ripples = rs\<rparr>)))
        \<and> ypos (last (ripples (addRipple x None u v \<lparr>canvas = Some c, ripples = rs\<rparr>))) < height c)"
  by (simp add: addRipple_def new_Ripple_def Let_def)

theorem addRipple_spawn_witness:
  "addRipple None (Some 7) (1 / 2) (1 / 4) \<lparr>canvas = None, ripples = []\<rparr> = \<lparr>canvas = None, ripples = []\<rparr>
   \<and> addRipple None (Some 7) (1 / 2) (1 / 4) \<lparr>canvas = Some \<lparr>width = 800, height = 600\<rparr>, ripples = []\<rparr> =
       \<lparr>canvas = Some \<lparr>width = 800, height = 600\<rparr>,
        ripples = [\<lparr>xpos = 400, ypos = 7, age = 0, maxAge = 100, active = True\<rparr>]\<rparr>
   \<and> (0::real) \<le> 1 / 2 \<and> (1 / 2 :: real) < 1 \<and> (0::real) < 800
   \<and> xpos (last (ripples (addRipple None (Some 7) (1 / 2) (1 / 4)
         \<lparr>canvas = Some \<lparr>width = 800, height = 600\<rparr>, ripples = []\<rparr>))) < 800"
  using addRipple_spawn [of None "Some 7" "1 / 2" "1 / 4" "[]" "\<lparr>canvas = None, ripples = []\<rparr>" "\<lparr>width = 800, height = 600\<rparr>"]
  by simp

section \<open>The audio service: lemmas and claims\<close>

lemma resumeIfSuspended_idem: "resumeIfSuspended (resumeIfSuspended s) = resumeIfSuspended s"
  by (cases "ctx s") (auto simp: resumeIfSuspended_def)

lemma init_idem: "init p s = Inr s1 \<Longrightarrow> init p' s1 = Inr s1"
  by (cases "ctx s"; cases p)
     (auto simp: init_def new_AudioContextClass_def resumeIfSuspended_def newContext_def)

lemma ctx_resumeIfSuspended: "(ctx (resumeIfSuspended s) = None) = (ctx s = None)"
  by (cases "ctx s") (auto simp: resumeIfSuspended_def)

lemma state_resumeIfSuspended: "getContextState (resumeIfSuspended s) = getContextState s"
  by (cases "ctx s") (auto simp: resumeIfSuspended_def getContextState_def)

lemma state_playRandomNote: "getContextState (settle (playRandomNote rnd t s)) = getContextState s"
  by (cases "ctx s") (auto simp: playRandomNote_def playTone_def settle_def getContextState_def Let_def)

lemma step_keeps_ctx: "ctx s \<noteq> None \<Longrightarrow> ctx (service_step x s) \<noteq> None"
  by (cases x)
     (auto simp: init_def new_AudioContextClass_def settle_def resumeIfSuspended_def playRandomNote_def playTone_def Let_def
        resumeResolved_def split: option.splits)

lemma service_transition:
  "getContextState (service_step x s) = getContextState s
   \<or> (getContextState s = None \<and> (\<exists>p. x = Init p)
        \<and> (getContextState (service_step x s) = Some Running
            \<or> getContextState (service_step x s) = Some Suspended))
   \<or> (getContextState s = Some Suspended \<and> x = ResumeResolved \<and> resumeRequested s
        \<and> getContextState (service_step x s) = Some Running)"
proof (cases x)
  case (Init p)
  then show ?thesis
    by (cases "ctx s"; cases p)
       (auto simp: init_def new_AudioContextClass_def settle_def resumeIfSuspended_def
          getContextState_def newContext_def)
next
  case (PlayRandomNote rnd t)
  then show ?thesis by (simp add: state_playRandomNote)
next
  case GetContextState
  then show ?thesis by simp
next
  case ResumeResolved
  then show ?thesis
    by (cases "ctx s") (auto simp: resumeResolved_def getContextState_def resumeRequested_def)
qed

lemma resume_requested_by_init:
  "resumeRequested (service_step x s) \<Longrightarrow> \<not> resumeRequested s \<Longrightarrow> \<exists>p. x = Init p"
  by (cases x; cases "ctx s")
     (auto simp: resumeRequested_def playRandomNote_def playTone_def settle_def Let_def
        resumeResolved_def split: if_splits)

lemma service_run_snoc: "service_run (xs @ [x]) s = service_step x (service_run xs s)"
  by (induction xs arbitrary: s) auto

lemma enveloped_voice: "enveloped (voice f t)"
  by (simp add: enveloped_def voice_def Let_def)

lemma sound_step: "sound s \<Longrightarrow> sound (service_step x s)"
proof (cases x)
  case (Init p)
  assume "sound s"
  then show ?thesis using Init
    by (cases "ctx s"; cases p)
       (auto simp: sound_def init_def new_AudioContextClass_def settle_def resumeIfSuspended_def
          newContext_def)
next
  case (PlayRandomNote rnd t)
  assume "sound s"
  then show ?thesis using PlayRandomNote
    by (cases "ctx s")
       (auto simp: sound_def playRandomNote_def playTone_def settle_def Let_def enveloped_voice)
next
  case GetContextState
  assume "sound s"
  then show ?thesis using GetContextState by simp
next
  case ResumeResolved
  assume "sound s"
  then show ?thesis using ResumeResolved
    by (cases "ctx s") (auto simp: sound_def resumeResolved_def)
qed

lemma sound_run: "sound s \<Longrightarrow> sound (service_run xs s)"
  by (induction xs arbitrary: s) (auto simp: sound_step)

lemma sound_initial: "sound audioService"
  by (simp add: sound_def audioService_def)


lemma init_suspended:
  "ctx s0 = Some c \<Longrightarrow> ctx_state c = Suspended \<Longrightarrow>
   init p s0 = Inr (s0\<lparr>ctx := Some (c\<lparr>pendingResume := True\<rparr>)\<rparr>)"
  by (simp add: init_def new_AudioContextClass_def resumeIfSuspended_def)

text \<open>
  C5, as the code has it. Along every run of the service from its initial state, what
  \<open>getContextState\<close> returns changes only in two ways. A call of \<open>init\<close> takes it from
  uninitialized to running or suspended. On a suspended context every call of \<open>init\<close>,
  the creating one included, calls \<open>resume()\<close> and returns with the state still
  suspended; the state becomes running in the step in which the platform settles such a
  request, and only \<open>init\<close> makes one. The state is never closed, a context once created
  is never dropped, the platform's constructor has returned at most one context, and
  \<open>init\<close> called again after it has returned changes nothing.
\<close>

theorem audio_engine_transitions:
  assumes "s = service_run xs audioService" and "s' = service_step x s"
  shows "(getContextState s' = getContextState s
          \<or> (getContextState s = None \<and> (\<exists>p. x = Init p)
               \<and> (getContextState s' = Some Running \<or> getContextState s' = Some Suspended))
          \<or> (getContextState s = Some Suspended \<and> x = ResumeResolved \<and> resumeRequested s
               \<and> getContextState s' = Some Running))
         \<and> (resumeRequested s' \<and> \<not> resumeRequested s \<longrightarrow> (\<exists>p. x = Init p))
         \<and> getContextState s \<noteq> Some Closed
         \<and> (ctx s \<noteq> None \<longrightarrow> ctx s' \<noteq> None)
         \<and> contextsCreated s = (if ctx s = None then 0 else 1)
         \<and> contextsCreated s' \<le> 1
         \<and> (init p s = Inr s1 \<longrightarrow> init p' s1 = Inr s1)
         \<and> (getContextState s = Some Suspended \<longrightarrow>
               (\<exists>s2. init p s = Inr s2 \<and> getContextState s2 = Some Suspended
                  \<and> resumeRequested s2
                  \<and> getContextState (resumeResolved s2) = Some Running))"
proof (intro conjI impI)
  show "getContextState s' = getContextState s
          \<or> (getContextState s = None \<and> (\<exists>p. x = Init p)
               \<and> (getContextState s' = Some Running \<or> getContextState s' = Some Suspended))
          \<or> (getContextState s = Some Suspended \<and> x = ResumeResolved \<and> resumeRequested s
               \<and> getContextState s' = Some Running)"
    unfolding assms(2) by (rule service_transition)
  have snd: "sound s"
    unfolding assms(1) by (rule sound_run [OF sound_initial])
  then show "getContextState s \<noteq> Some Closed"
    by (cases "ctx s") (auto simp: sound_def getContextState_def)
  from snd show "contextsCreated s = (if ctx s = None then 0 else 1)"
    by (cases "ctx s") (auto simp: sound_def)
  have "sound s'"
    unfolding assms(2) using snd by (rule sound_step)
  then show "contextsCreated s' \<le> 1"
    by (cases "ctx s'") (auto simp: sound_def)
next
  assume "resumeRequested s' \<and> \<not> resumeRequested s"
  then show "\<exists>p. x = Init p"
    unfolding assms(2) using resume_requested_by_init by blast
next
  assume "ctx s \<noteq> None"
  then show "ctx s' \<noteq> None"
    unfolding assms(2) by (rule step_keeps_ctx)
next
  assume "init p s = Inr s1"
  then show "init p' s1 = Inr s1" by (rule init_idem)
next
  assume a: "getContextState s = Some Suspended"
  then obtain c where c: "ctx s = Some c" "ctx_state c = Suspended"
    by (cases "ctx s") (auto simp: getContextState_def)
  let ?s2 = "s\<lparr>ctx := Some (c\<lparr>pendingResume := True\<rparr>)\<rparr>"
  have "init p s = Inr ?s2" using c by (rule init_suspended)
  moreover have "getContextState ?s2 = Some Suspended"
    using c by (simp add: getContextState_def)
  moreover have "resumeRequested ?s2"
    by (simp add: resumeRequested_def)
  moreover have "getContextState (resumeResolved ?s2) = Some Running"
    using c by (simp add: getContextState_def resumeResolved_def)
  ultimately show "\<exists>s2. init p s = Inr s2 \<and> getContextState s2 = Some Suspended
                  \<and> resumeRequested s2
                  \<and> getContextState (resumeResolved s2) = Some Running"
    by blast
qed

theorem audio_engine_transitions_witness:
  "service_run [Init StartsSuspended, PlayRandomNote 0 0] audioService =
     \<lparr>ctx = Some \<lparr>ctx_state = Suspended, pendingResume = True, destination = [voice (29366 / 100) 0]\<rparr>,
      isEnabled = True, contextsCreated = 1\<rparr>
   \<and> getContextState (service_run [Init StartsSuspended, PlayRandomNote 0 0] audioService) = Some Suspended
   \<and> getContextState (service_step ResumeResolved
        (service_run [Init StartsSuspended, PlayRandomNote 0 0] audioService)) = Some Running
   \<and> contextsCreated (service_step (Init StartsRunning)
        (service_run [Init StartsSuspended, PlayRandomNote 0 0] audioService)) \<le> 1
   \<and> init StartsRunning (service_run [Init StartsSuspended, PlayRandomNote 0 0] audioService) =
       Inr (service_run [Init StartsSuspended, PlayRandomNote 0 0] audioService)"
proof -
  let ?xs = "[Init StartsSuspended, PlayRandomNote 0 0]"
  let ?s = "service_run ?xs audioService"
  have s: "?s = \<lparr>ctx = Some \<lparr>ctx_state = Suspended, pendingResume = True,
                   destination = [voice (29366 / 100) 0]\<rparr>, isEnabled = True, contextsCreated = 1\<rparr>"
    by (simp add: audioService_def init_def new_AudioContextClass_def settle_def resumeIfSuspended_def
        newContext_def playRandomNote_def playTone_def PENTATONIC_SCALE_def)
  have i: "init StartsRunning ?s = Inr ?s"
    unfolding s by (simp add: init_def new_AudioContextClass_def resumeIfSuspended_def)
  note t = audio_engine_transitions [of ?s ?xs "service_step ResumeResolved ?s" ResumeResolved
      StartsRunning ?s StartsRunning, OF refl refl]
  note u = audio_engine_transitions [of ?s ?xs "service_step (Init StartsRunning) ?s" "Init StartsRunning"
      StartsRunning ?s StartsRunning, OF refl refl]
  from u have c: "contextsCreated (service_step (Init StartsRunning) ?s) \<le> 1"
    by blast
  have g: "getContextState ?s = Some Suspended"
    unfolding s by (simp add: getContextState_def)
  from t g have "\<exists>s2. init StartsRunning ?s = Inr s2 \<and> getContextState s2 = Some Suspended
      \<and> resumeRequested s2 \<and> getContextState (resumeResolved s2) = Some Running"
    by blast
  then have "getContextState (resumeResolved ?s) = Some Running"
    unfolding i by blast
  then have r: "getContextState (service_step ResumeResolved ?s) = Some Running"
    by simp
  from s g r c i show ?thesis by (intro conjI)
qed

text \<open>
  On a platform whose context starts suspended: a second call of \<open>init\<close> returns with
  the state still suspended, and after a single call of \<open>init\<close> the state becomes
  running in a step that is not a call of \<open>init\<close>, the platform settling the resume.
\<close>

theorem later_init_leaves_suspended:
  "getContextState (service_run [Init StartsSuspended] audioService) = Some Suspended
   \<and> getContextState (service_run [Init StartsSuspended, Init StartsSuspended] audioService) = Some Suspended
   \<and> getContextState (service_run [Init StartsSuspended, ResumeResolved] audioService) = Some Running"
  by (simp add: audioService_def init_def new_AudioContextClass_def settle_def resumeIfSuspended_def
      newContext_def getContextState_def resumeResolved_def)

lemma note_index:
  assumes "0 \<le> rnd" "rnd < 1"
  shows "nat \<lfloor>rnd * 5\<rfloor> < 5" and "0 \<le> \<lfloor>rnd * 5\<rfloor>" and "\<lfloor>rnd * 5\<rfloor> < 5"
    and "(nat \<lfloor>rnd * 5\<rfloor> = i) = (real i / 5 \<le> rnd \<and> rnd < (real i + 1) / 5)"
proof -
  show f0: "0 \<le> \<lfloor>rnd * 5\<rfloor>" using assms by simp
  have "rnd * 5 < 5" using assms by simp
  then show f5: "\<lfloor>rnd * 5\<rfloor> < 5" by (simp add: floor_less_iff)
  from f0 f5 show "nat \<lfloor>rnd * 5\<rfloor> < 5" by linarith
  have "(nat \<lfloor>rnd * 5\<rfloor> = i) = (\<lfloor>rnd * 5\<rfloor> = int i)" using f0 by auto
  also have "\<dots> = (real i \<le> rnd * 5 \<and> rnd * 5 < real i + 1)"
    by (simp add: floor_eq_iff)
  also have "\<dots> = (real i / 5 \<le> rnd \<and> rnd < (real i + 1) / 5)"
    by (simp add: divide_le_eq less_divide_eq)
  finally show "(nat \<lfloor>rnd * 5\<rfloor> = i) = (real i / 5 \<le> rnd \<and> rnd < (real i + 1) / 5)" .
qed

lemma scale_length: "length PENTATONIC_SCALE = 5"
  by (simp add: PENTATONIC_SCALE_def)

lemma playRandomNote_plays:
  assumes "0 \<le> rnd" "rnd < 1" "ctx s = Some c" "isEnabled s"
  shows "playRandomNote rnd t s =
    Inr (s\<lparr>ctx := Some (c\<lparr>destination := destination c @ [voice (freq (PENTATONIC_SCALE ! nat \<lfloor>rnd * 5\<rfloor>)) t]\<rparr>)\<rparr>)"
  using assms note_index(2,3) [OF assms(1,2)]
  by (simp add: playRandomNote_def playTone_def scale_length)

lemma playRandomNote_returns:
  assumes "0 \<le> rnd" "rnd < 1"
  shows "\<exists>s'. playRandomNote rnd t s = Inr s'"
  using note_index(2,3) [OF assms] by (simp add: playRandomNote_def scale_length)

lemma triggerEffect_not_running:
  "getContextState (audio a) \<noteq> Some Running \<Longrightarrow>
   \<exists>a'. triggerEffect p x y src a = Inr a' \<and> audio a' = audio a"
  by (cases src; cases "canvasRef a") (auto simp: triggerEffect_def Let_def)

text \<open>
  C1, as the code has it. Without a context (uninitialized) \<open>playRandomNote\<close> does
  nothing. With a context, which in every run of the service is also enabled, and whether
  it is running or suspended, it takes the note at index \<open>floor (5 * Math.random())\<close> of
  the five-note table, each index standing for an interval of length \<open>1 / 5\<close>, and adds
  exactly one voice at that note's frequency. The test for the running state is the
  caller's: \<open>triggerEffect\<close> leaves the audio service untouched unless the state is
  running.
\<close>

theorem playRandomNote_guard:
  "playRandomNote rnd t \<lparr>ctx = None, isEnabled = en, contextsCreated = n\<rparr> =
     Inr \<lparr>ctx = None, isEnabled = en, contextsCreated = n\<rparr>
   \<and> length PENTATONIC_SCALE = 5
   \<and> (0 \<le> rnd \<and> rnd < 1 \<longrightarrow>
        nat \<lfloor>rnd * 5\<rfloor> < 5
        \<and> playRandomNote rnd t \<lparr>ctx = Some c, isEnabled = True, contextsCreated = n\<rparr> =
            Inr \<lparr>ctx = Some (c\<lparr>destination := destination c
                                @ [voice (freq (PENTATONIC_SCALE ! nat \<lfloor>rnd * 5\<rfloor>)) t]\<rparr>),
                 isEnabled = True, contextsCreated = n\<rparr>
        \<and> (nat \<lfloor>rnd * 5\<rfloor> = i) = (real i / 5 \<le> rnd \<and> rnd < (real i + 1) / 5))
   \<and> (ctx (service_run xs audioService) \<noteq> None \<longrightarrow> isEnabled (service_run xs audioService))
   \<and> (getContextState (audio a) \<noteq> Some Running \<longrightarrow>
        (\<exists>a'. triggerEffect p x y src a = Inr a' \<and> audio a' = audio a))"
proof (intro conjI impI)
  show "playRandomNote rnd t \<lparr>ctx = None, isEnabled = en, contextsCreated = n\<rparr> =
     Inr \<lparr>ctx = None, isEnabled = en, contextsCreated = n\<rparr>"
    by (simp add: playRandomNote_def)
  show "length PENTATONIC_SCALE = 5" by (rule scale_length)
next
  assume r: "0 \<le> rnd \<and> rnd < 1"
  then show "nat \<lfloor>rnd * 5\<rfloor> < 5" using note_index(1) by blast
  from r show "(nat \<lfloor>rnd * 5\<rfloor> = i) = (real i / 5 \<le> rnd \<and> rnd < (real i + 1) / 5)"
    using note_index(4) by blast
  from r show "playRandomNote rnd t \<lparr>ctx = Some c, isEnabled = True, contextsCreated = n\<rparr> =
            Inr \<lparr>ctx = Some (c\<lparr>destination := destination c
                                @ [voice (freq (PENTATONIC_SCALE ! nat \<lfloor>rnd * 5\<rfloor>)) t]\<rparr>),
                 isEnabled = True, contextsCreated = n\<rparr>"
    using playRandomNote_plays [of rnd "\<lparr>ctx = Some c, isEnabled = True, contextsCreated = n\<rparr>" c t]
    by simp
next
  assume c: "ctx (service_run xs audioService) \<noteq> None"
  have "sound (service_run xs audioService)" by (rule sound_run [OF sound_initial])
  with c show "isEnabled (service_run xs audioService)"
    by (cases "ctx (service_run xs audioService)") (auto simp: sound_def)
next
  assume "getContextState (audio a) \<noteq> Some Running"
  then show "\<exists>a'. triggerEffect p x y src a = Inr a' \<and> audio a' = audio a"
    by (rule triggerEffect_not_running)
qed

theorem playRandomNote_guard_witness:
  "(0::real) \<le> 1 / 2 \<and> (1 / 2 :: real) < 1
   \<and> playRandomNote (1 / 2) 7 \<lparr>ctx = Some (newContext Running), isEnabled = True, contextsCreated = 1\<rparr> =
       Inr \<lparr>ctx = Some \<lparr>ctx_state = Running, pendingResume = False, destination = [voice 392 7]\<rparr>,
            isEnabled = True, contextsCreated = 1\<rparr>
   \<and> ctx (service_run [Init StartsRunning] audioService) \<noteq> None
   \<and> isEnabled (service_run [Init StartsRunning] audioService)
   \<and> getContextState (audio (initialApp None)) \<noteq> Some Running
   \<and> (\<exists>a'. triggerEffect \<lparr>audioPlatform = StartsRunning, currentTime = 0, randomX = 0, randomY = 0, randomNote = 0\<rparr>
          None None None (initialApp None) = Inr a' \<and> audio a' = audio (initialApp None))"
proof -
  note t = playRandomNote_guard [of "1 / 2" 7 False 1 "newContext Running" 2 "[Init StartsRunning]"
      "initialApp None" "\<lparr>audioPlatform = StartsRunning, currentTime = 0, randomX = 0, randomY = 0, randomNote = 0\<rparr>"
      None None None]
  have n: "nat \<lfloor>(1 / 2 :: real) * 5\<rfloor> = 2"
    by (simp add: floor_eq_iff)
  have c: "ctx (service_run [Init StartsRunning] audioService) \<noteq> None"
    by (simp add: audioService_def init_def new_AudioContextClass_def settle_def
        resumeIfSuspended_def newContext_def)
  have g: "getContextState (audio (initialApp None)) \<noteq> Some Running"
    by (simp add: initialApp_def runEffects_def midiEffect_def socketEffect_def firstRender_def
        audioService_def getContextState_def)
  have v: "freq (PENTATONIC_SCALE ! 2) = 392"
    by (simp add: PENTATONIC_SCALE_def)
  from t c g show ?thesis
    by (simp add: n v newContext_def)
qed

text \<open>
  A context that starts suspended: after \<open>init\<close> the state is suspended, and
  \<open>playRandomNote\<close> there adds a voice.
\<close>

theorem playRandomNote_while_suspended:
  "init StartsSuspended audioService =
     Inr \<lparr>ctx = Some \<lparr>ctx_state = Suspended, pendingResume = True, destination = []\<rparr>, isEnabled = True, contextsCreated = 1\<rparr>
   \<and> getContextState \<lparr>ctx = Some \<lparr>ctx_state = Suspended, pendingResume = True, destination = []\<rparr>,
        isEnabled = True, contextsCreated = 1\<rparr> = Some Suspended
   \<and> playRandomNote 0 0 \<lparr>ctx = Some \<lparr>ctx_state = Suspended, pendingResume = True, destination = []\<rparr>,
        isEnabled = True, contextsCreated = 1\<rparr> =
     Inr \<lparr>ctx = Some \<lparr>ctx_state = Suspended, pendingResume = True,
                      destination = [voice (29366 / 100) 0]\<rparr>, isEnabled = True, contextsCreated = 1\<rparr>"
  by (simp add: init_def new_AudioContextClass_def audioService_def resumeIfSuspended_def
      newContext_def getContextState_def playRandomNote_def playTone_def PENTATONIC_SCALE_def)

section \<open>The application: lemmas and claims\<close>

lemma status_bytes:
  "list_all (\<lambda>n. ((word_of_nat n :: 8 word) AND 0xF0 = 0x90) = (drop_bit 4 (word_of_nat n :: 8 word) = 9)) [0..<256]"
  by code_simp

lemma high_nibble: "(b AND 0xF0 = 0x90) = (drop_bit 4 b = (9::8 word))"
proof -
  have "unat b < 256" using unsigned_less [of b, where ?'a = nat] by simp
  then have "unat b \<in> set [0..<256]" by simp
  with status_bytes
  have "((word_of_nat (unat b) :: 8 word) AND 0xF0 = 0x90) = (drop_bit 4 (word_of_nat (unat b) :: 8 word) = 9)"
    unfolding list_all_iff by blast
  then show ?thesis by simp
qed

lemma velocity_pos: "(v > 0) = (v \<noteq> (0::8 word))"
  by (simp add: word_greater_zero_iff)

lemma noteOn_code:
  "noteOn data =
     ((case nth_opt data 0 of Some b \<Rightarrow> b AND 0xF0 | None \<Rightarrow> 0) = 0x90
      \<and> (case nth_opt data 2 of Some v \<Rightarrow> v > 0 | None \<Rightarrow> False))"
  by (simp add: noteOn_def nth_opt_def high_nibble velocity_pos split: list.splits)

lemma noteOn_note: "noteOn data \<Longrightarrow> nth_opt data 1 = Some (data ! 1)"
  by (auto simp: noteOn_def nth_opt_def split: list.splits)

lemma onMIDIMessage_noteOn:
  "onMIDIMessage p data a =
     (if noteOn data
      then triggerEffect p None None (Some (''MIDI Note '' @ decimal (unat (data ! 1)))) a
      else Inr a)"
proof -
  have h: "onMIDIMessage p data a =
     (if noteOn data
      then triggerEffect p None None
             (Some (''MIDI Note '' @ (case nth_opt data 1 of Some n \<Rightarrow> decimal (unat n) | None \<Rightarrow> ''undefined''))) a
      else Inr a)"
    by (simp only: onMIDIMessage_def Let_def noteOn_code)
  show ?thesis
  proof (cases "noteOn data")
    case True
    from noteOn_note [OF True] have n: "nth_opt data 1 = Some (data ! 1)" .
    show ?thesis unfolding h by (simp only: n True if_True option.case)
  next
    case False
    show ?thesis unfolding h by (simp only: False if_False)
  qed
qed


lemma service_run_append: "service_run (xs @ ys) s = service_run ys (service_run xs s)"
  by (induction xs arbitrary: s) auto

lemma evolves_refl: "evolves s s"
  unfolding evolves_def by (rule exI [of _ "[]"]) simp

lemma evolves_step: "evolves s (service_step x s)"
  unfolding evolves_def by (rule exI [of _ "[x]"]) simp

lemma evolves_trans: "evolves s s' \<Longrightarrow> evolves s' s'' \<Longrightarrow> evolves s s''"
  unfolding evolves_def using service_run_append by metis

lemma keeps_refl: "keeps a a"
  by (simp add: keeps_def evolves_refl)

lemma keeps_trans: "keeps a a' \<Longrightarrow> keeps a' a'' \<Longrightarrow> keeps a a''"
  unfolding keeps_def using evolves_trans by blast

lemma triggerEffect_settle:
  "settle (triggerEffect p x y src a) =
     a\<lparr>debugMsg := (case src of
                      Some s \<Rightarrow> if s \<noteq> [] then ''Trigger: '' @ s else debugMsg a
                    | None \<Rightarrow> debugMsg a),
       canvasRef := map_option (addRipple x y (randomX p) (randomY p)) (canvasRef a),
       audio := (if getContextState (audio a) = Some Running
                 then service_step (PlayRandomNote (randomNote p) (currentTime p)) (audio a)
                 else audio a)\<rparr>"
  by (cases src; cases "canvasRef a";
      cases "playRandomNote (randomNote p) (currentTime p) (audio a)")
     (auto simp: triggerEffect_def Let_def settle_def)

lemma keeps_trigger: "keeps a (settle (triggerEffect p x y src a))"
  by (simp add: triggerEffect_settle keeps_def evolves_refl evolves_step del: service_step.simps)

lemma startExperience_settle:
  "settle (startExperience p a) =
     (let s = service_step (Init (audioPlatform p)) (audio a)
      in case init (audioPlatform p) (audio a) of
           Inl e \<Rightarrow> a\<lparr>audio := s\<rparr>
         | Inr s' \<Rightarrow>
             if getContextState s = Some Running \<or> getContextState s = Some Suspended
             then a\<lparr>audio := s, audioReady := True,
                    debugMsg := ''Audio Engine Active. Listening for Signals...''\<rparr>
             else a\<lparr>audio := s\<rparr>)"
  by (cases "init (audioPlatform p) (audio a)")
     (auto simp: startExperience_def Let_def settle_def)

lemma keeps_start: "keeps a (settle (startExperience p a))"
  by (cases "init (audioPlatform p) (audio a)")
     (auto simp: startExperience_settle keeps_def evolves_step Let_def simp del: service_step.simps)

lemma settle_bind:
  "settle (case r of Inl e \<Rightarrow> Inl e | Inr a1 \<Rightarrow> f a1) =
     (case r of Inl e \<Rightarrow> snd e | Inr a1 \<Rightarrow> settle (f a1))"
  by (cases r) (auto simp: settle_def)

lemma keeps_bind:
  assumes "keeps a (settle r)" and "\<And>a1. r = Inr a1 \<Longrightarrow> keeps a1 (settle (f a1))"
  shows "keeps a (settle (case r of Inl e \<Rightarrow> Inl e | Inr a1 \<Rightarrow> f a1))"
proof (cases r)
  case (Inl e)
  then show ?thesis using assms(1) by (cases e) (simp add: settle_def)
next
  case (Inr a1)
  then have "keeps a a1" using assms(1) by (simp add: settle_def)
  then show ?thesis using assms(2) [OF Inr] Inr keeps_trans by simp
qed

lemma settle_Inr: "settle (Inr a) = a"
  by (simp add: settle_def)

lemma keeps_unlock: "keeps a (settle (if \<not> audioReady a then startExperience p a else Inr a))"
  by (simp add: keeps_start keeps_refl settle_Inr)

lemma keeps_click: "keeps a (settle (handleCanvasClick p x y a))"
  unfolding handleCanvasClick_def by (intro keeps_bind keeps_unlock keeps_trigger)

lemma keeps_key: "keeps a (settle (handleKeyDown p code a))"
proof (cases "code = ''Space'' \<or> code = ''Enter''")
  case True
  have "keeps a (settle (case (if \<not> audioReady a then startExperience p a else Inr a) of
      Inl e \<Rightarrow> Inl e | Inr a1 \<Rightarrow> triggerEffect p None None (Some ''Keyboard'') a1))"
    by (intro keeps_bind keeps_unlock keeps_trigger)
  then show ?thesis using True by (simp only: handleKeyDown_def if_True)
next
  case False
  then show ?thesis by (simp only: handleKeyDown_def if_False settle_Inr keeps_refl)
qed

lemma keeps_midi: "keeps a (settle (onMIDIMessage p data a))"
  by (simp add: onMIDIMessage_noteOn keeps_trigger settle_Inr keeps_refl)

lemma keeps_catch: "keeps a (settle (onmessage_catch p d a))"
  by (cases d) (auto simp: onmessage_catch_def keeps_trigger settle_Inr keeps_refl)

lemma keeps_try:
  "keeps a (settle (case triggerEffect p x y src a of
                      Inl (e, a') \<Rightarrow> onmessage_catch p d a' | Inr a' \<Rightarrow> Inr a'))"
proof (cases "triggerEffect p x y src a")
  case (Inl ea)
  obtain e a' where ea: "ea = (e, a')" by (cases ea)
  have "keeps a a'" using keeps_trigger [of a p x y src] Inl ea by (simp add: settle_def)
  then show ?thesis using Inl ea keeps_catch [of a' p d] keeps_trans by simp
next
  case (Inr a')
  then show ?thesis using keeps_trigger [of a p x y src] by (simp add: settle_def)
qed

lemma keeps_message: "keeps a (settle (onmessage J p d a))"
proof (cases "J (toString d)")
  case None
  then show ?thesis by (simp add: onmessage_def keeps_catch)
next
  case (Some data)
  show ?thesis
  proof (cases "get_property data ''address''")
    case (Inl e)
    then show ?thesis using Some by (simp add: onmessage_def keeps_catch)
  next
    case (Inr address)
    show ?thesis
    proof (cases "address = Some (JString oscAddress)")
      case True
      then show ?thesis using Some Inr keeps_try [where a = a and p = p and x = None and y = None and src = "Some ''OSC Signal''" and d = d]
        by (simp add: onmessage_def)
    next
      case False
      then show ?thesis using Some Inr by (simp add: onmessage_def settle_Inr keeps_refl)
    qed
  qed
qed

lemma keeps_handle: "keeps a (settle (handle J p e a))"
proof (cases e)
  case (Click x y)
  then show ?thesis by (simp add: keeps_click)
next
  case StartButton
  then show ?thesis using keeps_unlock [of a p] by simp
next
  case (KeyDown code)
  then show ?thesis by (simp add: keeps_key)
next
  case (MIDIMessage data)
  then show ?thesis by (simp add: keeps_midi settle_Inr keeps_refl)
next
  case MIDIAccessGranted
  then show ?thesis by (simp add: settle_Inr keeps_def evolves_refl)
next
  case MIDIAccessDenied
  then show ?thesis by (simp add: settle_Inr keeps_def evolves_refl)
next
  case (SocketMessage d)
  then show ?thesis by (simp add: keeps_message settle_Inr keeps_refl)
next
  case SocketOpened
  then show ?thesis by (simp add: settle_Inr keeps_def evolves_refl)
next
  case AudioResumed
  have "resumeResolved (audio a) = service_step ResumeResolved (audio a)" by simp
  then show ?thesis using AudioResumed
    by (simp add: settle_Inr keeps_def evolves_step del: service_step.simps)
next
  case AnimationFrame
  then show ?thesis
    by (auto simp: settle_def keeps_def evolves_refl split: option.splits sum.splits)
qed

lemma effects_fields:
  "audio (effects a a') = audio a'" "audioReady (effects a a') = audioReady a'"
  "canvasRef (effects a a') = canvasRef a'"
  by (simp_all add: effects_def runEffects_def midiEffect_def socketEffect_def Let_def)

lemma linked_step: "linked a \<Longrightarrow> linked (step J pe a)"
  using keeps_handle [of a J "fst pe" "snd pe"]
  by (auto simp: linked_def step_def keeps_def effects_def runEffects_def midiEffect_def
      socketEffect_def Let_def)

lemma evolves_step_app: "evolves (audio a) (audio (step J pe a))"
  using keeps_handle [of a J "fst pe" "snd pe"]
  by (simp add: step_def effects_fields keeps_def)

lemma linked_run: "linked a \<Longrightarrow> linked (run J pes a)"
  by (induction pes arbitrary: a) (auto simp: linked_step)

lemma evolves_run: "evolves (audio a) (audio (run J pes a))"
proof (induction pes arbitrary: a)
  case Nil
  then show ?case by (simp add: evolves_refl)
next
  case (Cons pe pes)
  show ?case using evolves_trans [OF evolves_step_app Cons.IH] by simp
qed

lemma initialApp_firstRender: "initialApp f = firstRender f"
  by (simp add: initialApp_def runEffects_def midiEffect_def socketEffect_def firstRender_def)

lemma linked_initial: "linked (initialApp f)"
  by (simp add: linked_def initialApp_firstRender firstRender_def)

lemma sound_app: "sound (audio (run J pes (initialApp f)))"
proof -
  obtain xs where "audio (run J pes (initialApp f)) = service_run xs audioService"
    using evolves_run [of "initialApp f" J pes]
    by (auto simp: evolves_def initialApp_firstRender firstRender_def)
  then show ?thesis by (simp add: sound_run sound_initial)
qed


lemma start_unlocks:
  assumes "sound (audio a)" "audioPlatform p \<noteq> Unavailable"
  shows "\<exists>a1. startExperience p a = Inr a1 \<and> audioReady a1"
proof (cases "ctx (audio a)")
  case None
  then show ?thesis using assms(2)
    by (cases "audioPlatform p")
       (auto simp: startExperience_def init_def new_AudioContextClass_def resumeIfSuspended_def newContext_def
          getContextState_def Let_def)
next
  case (Some c)
  then have "ctx_state c \<noteq> Closed" using assms(1) by (simp add: sound_def)
  then have "ctx_state c = Running \<or> ctx_state c = Suspended" by (cases "ctx_state c") auto
  then show ?thesis using Some
    by (auto simp: startExperience_def init_def new_AudioContextClass_def resumeIfSuspended_def getContextState_def Let_def)
qed

lemma trigger_keeps_ready: "audioReady a \<Longrightarrow> audioReady (settle (triggerEffect p x y src a))"
  using keeps_trigger [of a p x y src] by (simp add: keeps_def)

lemma step_unlocks:
  assumes "sound (audio a)" "audioPlatform p \<noteq> Unavailable" "\<not> audioReady a"
  shows "audioReady (step J (p, Click x y) a)" "audioReady (step J (p, StartButton) a)"
    "audioReady (step J (p, KeyDown ''Space'') a)" "audioReady (step J (p, KeyDown ''Enter'') a)"
proof -
  obtain a1 where a1: "startExperience p a = Inr a1" "audioReady a1"
    using start_unlocks [OF assms(1,2)] by blast
  show "audioReady (step J (p, Click x y) a)"
    using a1 assms(3) trigger_keeps_ready [OF a1(2)]
    by (simp add: step_def effects_fields handleCanvasClick_def)
  show "audioReady (step J (p, StartButton) a)"
    using a1 assms(3) by (simp add: step_def effects_fields settle_Inr)
  show "audioReady (step J (p, KeyDown ''Space'') a)"
    using a1 assms(3) trigger_keeps_ready [OF a1(2)]
    by (simp add: step_def effects_fields handleKeyDown_def)
  show "audioReady (step J (p, KeyDown ''Enter'') a)"
    using a1 assms(3) trigger_keeps_ready [OF a1(2)]
    by (simp add: step_def effects_fields handleKeyDown_def)
qed

lemma effects_same: "audioReady a' = audioReady a \<Longrightarrow> effects a a' = a'"
  by (simp add: effects_def)

lemma locked_ignores:
  assumes "linked a" "\<not> audioReady a"
  shows "step J (p, MIDIMessage data) a = a" "step J (p, SocketMessage d) a = a"
    "step J (p, MIDIAccessGranted) a = a" "step J (p, MIDIAccessDenied) a = a"
    "step J (p, SocketOpened) a = a"
  using assms by (simp_all add: linked_def step_def settle_Inr effects_same)

lemma unlock_only_by_gesture:
  assumes "linked a" "\<not> audioReady a" "audioReady (step J (p, e) a)"
  shows "(\<exists>x y. e = Click x y) \<or> e = StartButton \<or> e = KeyDown ''Space'' \<or> e = KeyDown ''Enter''"
proof (cases e)
  case (KeyDown code)
  show ?thesis
  proof (cases "code = ''Space'' \<or> code = ''Enter''")
    case True
    then show ?thesis using KeyDown by blast
  next
    case False
    then have "step J (p, e) a = a"
      using KeyDown by (simp add: step_def handleKeyDown_def settle_Inr effects_same)
    then show ?thesis using assms(2,3) by simp
  qed
next
  case (MIDIMessage data)
  then show ?thesis using locked_ignores(1) [OF assms(1,2)] assms(2,3) by simp
next
  case (SocketMessage d)
  then show ?thesis using locked_ignores(2) [OF assms(1,2)] assms(2,3) by simp
next
  case MIDIAccessGranted
  then show ?thesis using locked_ignores(3) [OF assms(1,2)] assms(2,3) by simp
next
  case MIDIAccessDenied
  then show ?thesis using locked_ignores(4) [OF assms(1,2)] assms(2,3) by simp
next
  case SocketOpened
  then show ?thesis using locked_ignores(5) [OF assms(1,2)] assms(2,3) by simp
next
  case AudioResumed
  then show ?thesis using assms(2,3) by (simp add: step_def settle_Inr effects_fields)
next
  case AnimationFrame
  then show ?thesis using assms(2,3)
    by (auto simp: step_def settle_def effects_fields split: option.splits sum.splits)
qed simp_all

text \<open>
  C4. The application starts as the mount leaves it: both effects have run once with
  \<open>audioReady\<close> false. In every state it reaches while \<open>audioReady\<close> is still false
  (Locked), no request for MIDI access is waiting and neither the MIDI inputs nor a
  socket carry a handler, so a MIDI message, a socket message, the platform's answer to
  a MIDI request and the opening of a socket leave the whole state as it is: no ripple,
  no note, no unlocking. A step that makes \<open>audioReady\<close> true is a click on the canvas,
  a click on the start button, or a key-down of Space or Enter; and each of these does
  unlock when the platform can create the audio context.
\<close>

theorem locked_dispatcher:
  assumes "a = run J pes (initialApp fld)" and "\<not> audioReady a"
  shows "step J (p, MIDIMessage data) a = a
       \<and> step J (p, SocketMessage d) a = a
       \<and> step J (p, MIDIAccessGranted) a = a
       \<and> step J (p, SocketOpened) a = a
       \<and> \<not> midiRequested a \<and> \<not> midiHandler a \<and> \<not> socketHandler a
       \<and> (audioReady (step J (p, e) a) \<longrightarrow>
            (\<exists>x y. e = Click x y) \<or> e = StartButton \<or> e = KeyDown ''Space'' \<or> e = KeyDown ''Enter'')
       \<and> (audioPlatform p \<noteq> Unavailable \<longrightarrow>
            audioReady (step J (p, Click x y) a) \<and> audioReady (step J (p, StartButton) a)
            \<and> audioReady (step J (p, KeyDown ''Space'') a)
            \<and> audioReady (step J (p, KeyDown ''Enter'') a))"
proof (intro conjI impI)
  have l: "linked a" unfolding assms(1) by (rule linked_run [OF linked_initial])
  have s: "sound (audio a)" unfolding assms(1) by (rule sound_app)
  show "step J (p, MIDIMessage data) a = a" by (rule locked_ignores(1) [OF l assms(2)])
  show "step J (p, SocketMessage d) a = a" by (rule locked_ignores(2) [OF l assms(2)])
  show "step J (p, MIDIAccessGranted) a = a" by (rule locked_ignores(3) [OF l assms(2)])
  show "step J (p, SocketOpened) a = a" by (rule locked_ignores(5) [OF l assms(2)])
  show "\<not> midiRequested a" "\<not> midiHandler a" "\<not> socketHandler a"
    using l assms(2) by (auto simp: linked_def)
  {
    assume "audioReady (step J (p, e) a)"
    then show "(\<exists>x y. e = Click x y) \<or> e = StartButton \<or> e = KeyDown ''Space'' \<or> e = KeyDown ''Enter''"
      by (rule unlock_only_by_gesture [OF l assms(2)])
  }
  {
    assume u: "audioPlatform p \<noteq> Unavailable"
    show "audioReady (step J (p, Click x y) a)" by (rule step_unlocks(1) [OF s u assms(2)])
    show "audioReady (step J (p, StartButton) a)" by (rule step_unlocks(2) [OF s u assms(2)])
    show "audioReady (step J (p, KeyDown ''Space'') a)" by (rule step_unlocks(3) [OF s u assms(2)])
    show "audioReady (step J (p, KeyDown ''Enter'') a)" by (rule step_unlocks(4) [OF s u assms(2)])
  }
qed

theorem locked_dispatcher_witness:
  "run bridgeExamples
     [(\<lparr>audioPlatform = StartsRunning, currentTime = 0, randomX = 0, randomY = 0, randomNote = 0\<rparr>,
       MIDIAccessGranted),
      (\<lparr>audioPlatform = StartsRunning, currentTime = 0, randomX = 0, randomY = 0, randomNote = 0\<rparr>,
       MIDIMessage [0x90, 60, 100]),
      (\<lparr>audioPlatform = StartsRunning, currentTime = 0, randomX = 0, randomY = 0, randomNote = 0\<rparr>,
       KeyDown ''KeyA'')]
     (initialApp None) = initialApp None
   \<and> \<not> audioReady (initialApp None)
   \<and> step bridgeExamples
        (\<lparr>audioPlatform = StartsRunning, currentTime = 0, randomX = 0, randomY = 0, randomNote = 0\<rparr>,
         MIDIMessage [0x90, 60, 100]) (initialApp None) = initialApp None
   \<and> step bridgeExamples
        (\<lparr>audioPlatform = StartsRunning, currentTime = 0, randomX = 0, randomY = 0, randomNote = 0\<rparr>,
         SocketMessage (TextData ''random vibration alert'')) (initialApp None) = initialApp None
   \<and> audioReady (step bridgeExamples
        (\<lparr>audioPlatform = StartsRunning, currentTime = 0, randomX = 0, randomY = 0, randomNote = 0\<rparr>,
         Click 100 200) (initialApp None))
   \<and> midiHandler (run bridgeExamples
        [(\<lparr>audioPlatform = StartsRunning, currentTime = 0, randomX = 0, randomY = 0, randomNote = 0\<rparr>,
          Click 100 200),
         (\<lparr>audioPlatform = StartsRunning, currentTime = 0, randomX = 0, randomY = 0, randomNote = 0\<rparr>,
          MIDIAccessGranted)]
        (initialApp None))"
proof -
  let ?p = "\<lparr>audioPlatform = StartsRunning, currentTime = 0, randomX = 0, randomY = 0, randomNote = 0\<rparr>"
  let ?pes = "[(?p, MIDIAccessGranted), (?p, MIDIMessage [0x90, 60, 100]), (?p, KeyDown ''KeyA'')]"
  have r: "run bridgeExamples ?pes (initialApp None) = initialApp None"
    by (simp add: step_def initialApp_firstRender firstRender_def settle_def effects_def handleKeyDown_def)
  have n: "\<not> audioReady (initialApp None)"
    by (simp add: initialApp_firstRender firstRender_def)
  note t = locked_dispatcher [where a = "initialApp None" and J = bridgeExamples and pes = ?pes
      and fld = None and p = ?p and data = "[0x90, 60, 100]"
      and d = "TextData ''random vibration alert''" and e = "Click 100 200" and x = 100 and y = 200,
      OF r [symmetric] n]
  have u: "audioPlatform ?p \<noteq> Unavailable" by simp
  from t u have c: "audioReady (step bridgeExamples (?p, Click 100 200) (initialApp None))"
    by blast
  have h: "midiHandler (run bridgeExamples [(?p, Click 100 200), (?p, MIDIAccessGranted)] (initialApp None))"
    by (simp add: step_def initialApp_firstRender firstRender_def settle_def effects_def runEffects_def
        midiEffect_def socketEffect_def handleCanvasClick_def startExperience_def init_def
        new_AudioContextClass_def newContext_def resumeIfSuspended_def audioService_def
        getContextState_def triggerEffect_def playRandomNote_def playTone_def PENTATONIC_SCALE_def
        Let_def)
  from t r n c h show ?thesis by blast
qed

lemma voices_sound: "sound s \<Longrightarrow> list_all enveloped (voices s)"
  by (cases "ctx s") (auto simp: sound_def voices_def)

text \<open>
  C7. The voice that \<open>playTone\<close> builds at clock time \<open>t\<close> starts at \<open>t\<close>, has its gain
  set to 0 at \<open>t\<close>, ramped linearly to 0.8 at \<open>t + 0.05\<close> and then exponentially to the
  positive value 0.001 at \<open>t + 1.5\<close>, and is stopped at \<open>t + 1.6\<close>. Every voice in a
  state that the audio service or the application reaches has this envelope relative to
  its own start time.
\<close>

theorem voice_envelope:
  "gain_gain (voice frequency t) =
     [SetValueAtTime 0 t,
      LinearRampToValueAtTime (8 / 10) (t + 5 / 100),
      ExponentialRampToValueAtTime (1 / 1000) (t + 15 / 10)]
   \<and> osc_start (voice frequency t) = t
   \<and> osc_stop (voice frequency t) = t + 16 / 10
   \<and> list_all enveloped (voices (service_run xs audioService))
   \<and> list_all enveloped (voices (audio (run J pes (initialApp fld))))"
proof (intro conjI)
  show "list_all enveloped (voices (service_run xs audioService))"
    by (rule voices_sound [OF sound_run [OF sound_initial]])
  show "list_all enveloped (voices (audio (run J pes (initialApp fld))))"
    by (rule voices_sound [OF sound_app])
qed (simp_all add: voice_def Let_def)

theorem voice_envelope_witness:
  "voices (service_run [Init StartsRunning, PlayRandomNote (1 / 2) 7] audioService) = [voice 392 7]
   \<and> list_all enveloped [voice 392 7]
   \<and> gain_gain (voice 392 7) =
       [SetValueAtTime 0 7, LinearRampToValueAtTime (4 / 5) (141 / 20),
        ExponentialRampToValueAtTime (1 / 1000) (17 / 2)]
   \<and> osc_stop (voice 392 7) = 43 / 5"
proof -
  have n: "nat \<lfloor>(1 / 2 :: real) * 5\<rfloor> = 2" "\<lfloor>(1 / 2 :: real) * 5\<rfloor> = 2"
    by (simp_all add: floor_eq_iff)
  have v: "voices (service_run [Init StartsRunning, PlayRandomNote (1 / 2) 7] audioService) = [voice 392 7]"
    by (simp add: voices_def audioService_def init_def new_AudioContextClass_def settle_def resumeIfSuspended_def newContext_def
        playRandomNote_def playTone_def PENTATONIC_SCALE_def n)
  note t = voice_envelope [of 392 7 "[Init StartsRunning, PlayRandomNote (1 / 2) 7]" bridgeExamples "[]" None]
  from t v show ?thesis by simp
qed

lemma rippleCount_trigger:
  "rippleCount (settle (triggerEffect p x y src a)) = rippleCount a + (if mountedApp a then 1 else 0)"
  by (cases "canvasRef a")
     (auto simp: triggerEffect_settle rippleCount_def mountedApp_def addRipple_def Let_def
        split: option.splits)

lemma triggerEffect_returns:
  assumes "0 \<le> randomNote p" "randomNote p < 1"
  shows "\<exists>a'. triggerEffect p x y src a = Inr a'"
proof -
  obtain s' where "playRandomNote (randomNote p) (currentTime p) (audio a) = Inr s'"
    using playRandomNote_returns [OF assms] by blast
  then show ?thesis
    by (cases src; cases "canvasRef a") (auto simp: triggerEffect_def Let_def)
qed

text \<open>
  C9. \<open>onMIDIMessage\<close> calls \<open>triggerEffect\<close> once when the message has a status byte
  whose high nibble is 9 and a third byte (the velocity) that is not zero, and does
  nothing otherwise; a MIDI message reaches it whenever the handler is in place. On a
  mounted canvas the call adds exactly one ripple. \<open>[0x90, 60, 100]\<close> triggers;
  \<open>[0x90, 60, 0]\<close> and \<open>[0x80, 60, 100]\<close> do not.
\<close>

theorem midi_note_on:
  "onMIDIMessage p data a =
     (if noteOn data
      then triggerEffect p None None (Some (''MIDI Note '' @ decimal (unat (data ! 1)))) a
      else Inr a)
   \<and> handle J p (MIDIMessage data) a = (if midiHandler a then onMIDIMessage p data a else Inr a)
   \<and> rippleCount (settle (onMIDIMessage p data a)) =
       rippleCount a + (if noteOn data \<and> mountedApp a then 1 else 0)
   \<and> noteOn [0x90, 60, 100] \<and> \<not> noteOn [0x90, 60, 0] \<and> \<not> noteOn [0x80, 60, 100]"
proof (intro conjI)
  show "onMIDIMessage p data a =
     (if noteOn data
      then triggerEffect p None None (Some (''MIDI Note '' @ decimal (unat (data ! 1)))) a
      else Inr a)"
    by (rule onMIDIMessage_noteOn)
  show "rippleCount (settle (onMIDIMessage p data a)) =
       rippleCount a + (if noteOn data \<and> mountedApp a then 1 else 0)"
    by (simp add: onMIDIMessage_noteOn rippleCount_trigger settle_Inr)
qed (simp_all add: noteOn_def)


theorem midi_note_on_witness:
  "onMIDIMessage \<lparr>audioPlatform = StartsRunning, currentTime = 0, randomX = 1 / 2, randomY = 1 / 4, randomNote = 0\<rparr>
     [0x90, 60, 100] (initialApp (Some (mounted \<lparr>width = 800, height = 600\<rparr>))) =
     Inr ((initialApp (Some (mounted \<lparr>width = 800, height = 600\<rparr>)))
           \<lparr>debugMsg := ''Trigger: MIDI Note 60'',
            canvasRef := Some \<lparr>canvas = Some \<lparr>width = 800, height = 600\<rparr>,
                               ripples = [new_Ripple 400 150]\<rparr>\<rparr>)
   \<and> rippleCount (settle (onMIDIMessage
        \<lparr>audioPlatform = StartsRunning, currentTime = 0, randomX = 1 / 2, randomY = 1 / 4, randomNote = 0\<rparr>
        [0x90, 60, 100] (initialApp (Some (mounted \<lparr>width = 800, height = 600\<rparr>))))) = 1
   \<and> onMIDIMessage \<lparr>audioPlatform = StartsRunning, currentTime = 0, randomX = 1 / 2, randomY = 1 / 4, randomNote = 0\<rparr>
       [0x90, 60, 0] (initialApp (Some (mounted \<lparr>width = 800, height = 600\<rparr>))) =
       Inr (initialApp (Some (mounted \<lparr>width = 800, height = 600\<rparr>)))
   \<and> onMIDIMessage \<lparr>audioPlatform = StartsRunning, currentTime = 0, randomX = 1 / 2, randomY = 1 / 4, randomNote = 0\<rparr>
       [0x80, 60, 100] (initialApp (Some (mounted \<lparr>width = 800, height = 600\<rparr>))) =
       Inr (initialApp (Some (mounted \<lparr>width = 800, height = 600\<rparr>)))"
proof -
  let ?p = "\<lparr>audioPlatform = StartsRunning, currentTime = 0, randomX = 1 / 2, randomY = 1 / 4, randomNote = 0\<rparr>"
  let ?a = "initialApp (Some (mounted \<lparr>width = 800, height = 600\<rparr>))"
  note t1 = midi_note_on [of ?p "[0x90, 60, 100]" ?a bridgeExamples]
  note t2 = midi_note_on [of ?p "[0x90, 60, 0]" ?a bridgeExamples]
  note t3 = midi_note_on [of ?p "[0x80, 60, 100]" ?a bridgeExamples]
  have d: "decimal 60 = ''60''"
    by code_simp
  have m: "mountedApp ?a" "rippleCount ?a = 0"
    by (simp_all add: mountedApp_def rippleCount_def initialApp_firstRender firstRender_def mounted_def)
  have tr: "triggerEffect ?p None None (Some ''MIDI Note 60'') ?a =
      Inr (?a\<lparr>debugMsg := ''Trigger: MIDI Note 60'',
             canvasRef := Some \<lparr>canvas = Some \<lparr>width = 800, height = 600\<rparr>,
                               ripples = [new_Ripple 400 150]\<rparr>\<rparr>)"
    by (simp add: triggerEffect_def initialApp_firstRender firstRender_def mounted_def addRipple_def getContextState_def
        audioService_def Let_def)
  have n: "noteOn [0x90, 60, 100]" "\<not> noteOn [0x90, 60, 0]" "\<not> noteOn [0x80, 60, 100]"
    using t1 by blast+
  from t1 have "onMIDIMessage ?p [0x90, 60, 100] ?a =
      (if noteOn [0x90, 60, 100]
       then triggerEffect ?p None None (Some (''MIDI Note '' @ decimal (unat ([0x90, 60, 100 :: 8 word] ! 1)))) ?a
       else Inr ?a)"
    by (rule conjunct1)
  then have c1: "onMIDIMessage ?p [0x90, 60, 100] ?a =
      Inr (?a\<lparr>debugMsg := ''Trigger: MIDI Note 60'',
             canvasRef := Some \<lparr>canvas = Some \<lparr>width = 800, height = 600\<rparr>,
                               ripples = [new_Ripple 400 150]\<rparr>\<rparr>)"
    using tr by (simp add: n d)
  have c2: "rippleCount (settle (onMIDIMessage ?p [0x90, 60, 100] ?a)) = 1"
    unfolding c1 by (simp add: settle_def rippleCount_def)
  from t2 have "onMIDIMessage ?p [0x90, 60, 0] ?a =
      (if noteOn [0x90, 60, 0]
       then triggerEffect ?p None None (Some (''MIDI Note '' @ decimal (unat ([0x90, 60, 0 :: 8 word] ! 1)))) ?a
       else Inr ?a)"
    by (rule conjunct1)
  then have c3: "onMIDIMessage ?p [0x90, 60, 0] ?a = Inr ?a"
    by (simp only: n if_False)
  from t3 have "onMIDIMessage ?p [0x80, 60, 100] ?a =
      (if noteOn [0x80, 60, 100]
       then triggerEffect ?p None None (Some (''MIDI Note '' @ decimal (unat ([0x80, 60, 100 :: 8 word] ! 1)))) ?a
       else Inr ?a)"
    by (rule conjunct1)
  then have c4: "onMIDIMessage ?p [0x80, 60, 100] ?a = Inr ?a"
    by (simp only: n if_False)
  from c1 c2 c3 c4 show ?thesis by (intro conjI)
qed

text \<open>
  C8. For a text message, when \<open>Math.random()\<close> is in \<open>[0, 1)\<close>: if the text parses and
  the \<open>address\<close> of the parsed value is the string \<open>/sensor/vibration\<close>, the handler
  calls \<open>triggerEffect\<close> once; if it parses to anything else, it does nothing; if it does
  not parse, it calls \<open>triggerEffect\<close> once exactly when the text contains
  \<open>vibration\<close>. The call returns and, on a mounted canvas, adds exactly one ripple.
  Reading \<open>address\<close> of a parsed \<open>null\<close> throws and so ends in the \<open>catch\<close> block as
  well; this changes nothing as long as a text that parses to \<open>null\<close> does not contain
  \<open>vibration\<close>, which is the first hypothesis and holds of \<open>JSON.parse\<close>.
\<close>

theorem bridge_message:
  assumes "J txt = Some JNull \<longrightarrow> \<not> includes_str txt ''vibration''"
    and "0 \<le> randomNote p" and "randomNote p < 1"
  shows "onmessage J p (TextData txt) a =
           (case J txt of
              Some data \<Rightarrow>
                if get_property data ''address'' = Inr (Some (JString ''/sensor/vibration''))
                then triggerEffect p None None (Some ''OSC Signal'') a
                else Inr a
            | None \<Rightarrow>
                if includes_str txt ''vibration''
                then triggerEffect p None None (Some ''OSC Signal'') a
                else Inr a)
         \<and> (\<exists>a'. triggerEffect p None None (Some ''OSC Signal'') a = Inr a'
               \<and> rippleCount a' = rippleCount a + (if mountedApp a then 1 else 0))
         \<and> handle J p (SocketMessage (TextData txt)) a =
             (if socketHandler a then onmessage J p (TextData txt) a else Inr a)"
proof (intro conjI)
  obtain a' where a': "triggerEffect p None None (Some ''OSC Signal'') a = Inr a'"
    using triggerEffect_returns [OF assms(2,3)] by blast
  then have "rippleCount a' = rippleCount a + (if mountedApp a then 1 else 0)"
    using rippleCount_trigger [of p None None "Some ''OSC Signal''" a] by (simp add: settle_Inr)
  with a' show "\<exists>a'. triggerEffect p None None (Some ''OSC Signal'') a = Inr a'
      \<and> rippleCount a' = rippleCount a + (if mountedApp a then 1 else 0)"
    by blast
  show "onmessage J p (TextData txt) a =
           (case J txt of
              Some data \<Rightarrow>
                if get_property data ''address'' = Inr (Some (JString ''/sensor/vibration''))
                then triggerEffect p None None (Some ''OSC Signal'') a
                else Inr a
            | None \<Rightarrow>
                if includes_str txt ''vibration''
                then triggerEffect p None None (Some ''OSC Signal'') a
                else Inr a)"
  proof (cases "J txt")
    case None
    then show ?thesis by (simp add: onmessage_def toString_def onmessage_catch_def)
  next
    case (Some data)
    show ?thesis
    proof (cases "get_property data ''address''")
      case (Inl e)
      then have "data = JNull" by (cases data) (simp_all add: get_property_def)
      then have "\<not> includes_str txt ''vibration''" using assms(1) Some by simp
      then show ?thesis using Some Inl
        by (simp add: onmessage_def toString_def onmessage_catch_def)
    next
      case (Inr address)
      then show ?thesis using Some a'
        by (simp add: onmessage_def toString_def oscAddress_def)
    qed
  qed
qed simp


lemma rippleCount_effects: "rippleCount (effects a a') = rippleCount a'"
  by (simp add: rippleCount_def effects_fields)

theorem bridge_message_witness:
  \<open>run bridgeExamples
     [(\<lparr>audioPlatform = StartsRunning, currentTime = 0, randomX = 1 / 2, randomY = 1 / 4, randomNote = 0\<rparr>,
       StartButton)]
     (initialApp (Some (mounted \<lparr>width = 800, height = 600\<rparr>))) =
     \<lparr>audio = \<lparr>ctx = Some \<lparr>ctx_state = Running, pendingResume = False, destination = []\<rparr>,
                isEnabled = True, contextsCreated = 1\<rparr>,
      canvasRef = Some \<lparr>canvas = Some \<lparr>width = 800, height = 600\<rparr>, ripples = []\<rparr>,
      audioReady = True, debugMsg = ''Audio Engine Active. Listening for Signals...'',
      midiRequested = True, midiHandler = False, socketHandler = True\<rparr>
   \<and> rippleCount (step bridgeExamples
        (\<lparr>audioPlatform = StartsRunning, currentTime = 0, randomX = 1 / 2, randomY = 1 / 4, randomNote = 0\<rparr>,
         SocketMessage (TextData ''{"address":"/sensor/vibration","args":[]}''))
        \<lparr>audio = \<lparr>ctx = Some \<lparr>ctx_state = Running, pendingResume = False, destination = []\<rparr>,
                   isEnabled = True, contextsCreated = 1\<rparr>,
         canvasRef = Some \<lparr>canvas = Some \<lparr>width = 800, height = 600\<rparr>, ripples = []\<rparr>,
         audioReady = True, debugMsg = ''Audio Engine Active. Listening for Signals...'',
         midiRequested = True, midiHandler = False, socketHandler = True\<rparr>) = 1
   \<and> rippleCount (step bridgeExamples
        (\<lparr>audioPlatform = StartsRunning, currentTime = 0, randomX = 1 / 2, randomY = 1 / 4, randomNote = 0\<rparr>,
         SocketMessage (TextData ''{"address":"/other"}''))
        \<lparr>audio = \<lparr>ctx = Some \<lparr>ctx_state = Running, pendingResume = False, destination = []\<rparr>,
                   isEnabled = True, contextsCreated = 1\<rparr>,
         canvasRef = Some \<lparr>canvas = Some \<lparr>width = 800, height = 600\<rparr>, ripples = []\<rparr>,
         audioReady = True, debugMsg = ''Audio Engine Active. Listening for Signals...'',
         midiRequested = True, midiHandler = False, socketHandler = True\<rparr>) = 0
   \<and> rippleCount (step bridgeExamples
        (\<lparr>audioPlatform = StartsRunning, currentTime = 0, randomX = 1 / 2, randomY = 1 / 4, randomNote = 0\<rparr>,
         SocketMessage (TextData ''random vibration alert''))
        \<lparr>audio = \<lparr>ctx = Some \<lparr>ctx_state = Running, pendingResume = False, destination = []\<rparr>,
                   isEnabled = True, contextsCreated = 1\<rparr>,
         canvasRef = Some \<lparr>canvas = Some \<lparr>width = 800, height = 600\<rparr>, ripples = []\<rparr>,
         audioReady = True, debugMsg = ''Audio Engine Active. Listening for Signals...'',
         midiRequested = True, midiHandler = False, socketHandler = True\<rparr>) = 1
   \<and> bridgeExamples ''null'' = Some JNull \<and> \<not> includes_str ''null'' ''vibration''
   \<and> rippleCount (step bridgeExamples
        (\<lparr>audioPlatform = StartsRunning, currentTime = 0, randomX = 1 / 2, randomY = 1 / 4, randomNote = 0\<rparr>,
         SocketMessage (TextData ''null''))
        \<lparr>audio = \<lparr>ctx = Some \<lparr>ctx_state = Running, pendingResume = False, destination = []\<rparr>,
                   isEnabled = True, contextsCreated = 1\<rparr>,
         canvasRef = Some \<lparr>canvas = Some \<lparr>width = 800, height = 600\<rparr>, ripples = []\<rparr>,
         audioReady = True, debugMsg = ''Audio Engine Active. Listening for Signals...'',
         midiRequested = True, midiHandler = False, socketHandler = True\<rparr>) = 0\<close>
proof -
  let ?p = "\<lparr>audioPlatform = StartsRunning, currentTime = 0, randomX = 1 / 2, randomY = 1 / 4, randomNote = 0\<rparr>"
  let ?a = "\<lparr>audio = \<lparr>ctx = Some \<lparr>ctx_state = Running, pendingResume = False, destination = []\<rparr>,
                   isEnabled = True, contextsCreated = 1\<rparr>,
         canvasRef = Some \<lparr>canvas = Some \<lparr>width = 800, height = 600\<rparr>, ripples = []\<rparr>,
         audioReady = True, debugMsg = ''Audio Engine Active. Listening for Signals...'',
         midiRequested = True, midiHandler = False, socketHandler = True\<rparr>"
  let ?m1 = \<open>''{"address":"/sensor/vibration","args":[]}''\<close>
  let ?m2 = \<open>''{"address":"/other"}''\<close>
  let ?m3 = "''random vibration alert''"
  have r: "run bridgeExamples [(?p, StartButton)] (initialApp (Some (mounted \<lparr>width = 800, height = 600\<rparr>))) = ?a"
    by (simp add: step_def initialApp_firstRender firstRender_def mounted_def runEffects_def Let_def
        startExperience_def init_def new_AudioContextClass_def audioService_def
        resumeIfSuspended_def newContext_def getContextState_def settle_def effects_def
        midiEffect_def socketEffect_def)
  have rnd: "0 \<le> randomNote ?p" "randomNote ?p < 1" by simp_all
  have m: "mountedApp ?a" "rippleCount ?a = 0" "socketHandler ?a"
    by (simp_all add: mountedApp_def rippleCount_def)
  have j1: "bridgeExamples ?m1 = Some (JObject [(''address'', JString ''/sensor/vibration''), (''args'', JArray [])])"
    by (simp add: bridgeExamples_def)
  have j2: "bridgeExamples ?m2 = Some (JObject [(''address'', JString ''/other'')])"
    by (simp add: bridgeExamples_def)
  have j3: "bridgeExamples ?m3 = None"
    by (simp add: bridgeExamples_def)
  have jn: "bridgeExamples ''null'' = Some JNull" "\<not> includes_str ''null'' ''vibration''"
    by (simp_all add: bridgeExamples_def)
  have h1: "bridgeExamples ?m1 = Some JNull \<longrightarrow> \<not> includes_str ?m1 ''vibration''"
    and h2: "bridgeExamples ?m2 = Some JNull \<longrightarrow> \<not> includes_str ?m2 ''vibration''"
    and h3: "bridgeExamples ?m3 = Some JNull \<longrightarrow> \<not> includes_str ?m3 ''vibration''"
    by (simp_all only: j1 j2 j3) simp_all
  note t1 = bridge_message [of bridgeExamples ?m1 ?p ?a, OF h1 rnd]
  note t2 = bridge_message [of bridgeExamples ?m2 ?p ?a, OF h2 rnd]
  note t3 = bridge_message [of bridgeExamples ?m3 ?p ?a, OF h3 rnd]
  have h4: "bridgeExamples ''null'' = Some JNull \<longrightarrow> \<not> includes_str ''null'' ''vibration''"
    using jn by (simp only: simp_thms)
  note t4 = bridge_message [of bridgeExamples "''null''" ?p ?a, OF h4 rnd]
  have g4: "get_property JNull ''address'' \<noteq> Inr (Some (JString ''/sensor/vibration''))"
    by (simp add: get_property_def)
  from t1 have "\<exists>a'. triggerEffect ?p None None (Some ''OSC Signal'') ?a = Inr a'
      \<and> rippleCount a' = rippleCount ?a + (if mountedApp ?a then 1 else 0)"
    by (rule conjunct1 [OF conjunct2])
  then obtain a' where a'1: "triggerEffect ?p None None (Some ''OSC Signal'') ?a = Inr a'"
    and a'2: "rippleCount a' = rippleCount ?a + (if mountedApp ?a then 1 else 0)"
    by blast
  have a'3: "rippleCount a' = 1"
    unfolding a'2 by (simp only: m if_True)
  have i3: "includes_str ?m3 ''vibration''" by simp
  have g1: "get_property (JObject [(''address'', JString ''/sensor/vibration''), (''args'', JArray [])]) ''address''
      = Inr (Some (JString ''/sensor/vibration''))"
    by (simp add: get_property_def)
  have g2: "get_property (JObject [(''address'', JString ''/other'')]) ''address''
      \<noteq> Inr (Some (JString ''/sensor/vibration''))"
    by (simp add: get_property_def)
  from t1 have "onmessage bridgeExamples ?p (TextData ?m1) ?a =
      (case bridgeExamples ?m1 of
         Some data \<Rightarrow>
           if get_property data ''address'' = Inr (Some (JString ''/sensor/vibration''))
           then triggerEffect ?p None None (Some ''OSC Signal'') ?a
           else Inr ?a
       | None \<Rightarrow>
           if includes_str ?m1 ''vibration''
           then triggerEffect ?p None None (Some ''OSC Signal'') ?a
           else Inr ?a)"
    by (rule conjunct1)
  then have o1: "onmessage bridgeExamples ?p (TextData ?m1) ?a = Inr a'"
    by (simp only: j1 option.case g1 simp_thms if_True a'1)
  from t2 have "onmessage bridgeExamples ?p (TextData ?m2) ?a =
      (case bridgeExamples ?m2 of
         Some data \<Rightarrow>
           if get_property data ''address'' = Inr (Some (JString ''/sensor/vibration''))
           then triggerEffect ?p None None (Some ''OSC Signal'') ?a
           else Inr ?a
       | None \<Rightarrow>
           if includes_str ?m2 ''vibration''
           then triggerEffect ?p None None (Some ''OSC Signal'') ?a
           else Inr ?a)"
    by (rule conjunct1)
  then have o2: "onmessage bridgeExamples ?p (TextData ?m2) ?a = Inr ?a"
    by (simp only: j2 option.case g2 simp_thms if_False)
  from t3 have "onmessage bridgeExamples ?p (TextData ?m3) ?a =
      (case bridgeExamples ?m3 of
         Some data \<Rightarrow>
           if get_property data ''address'' = Inr (Some (JString ''/sensor/vibration''))
           then triggerEffect ?p None None (Some ''OSC Signal'') ?a
           else Inr ?a
       | None \<Rightarrow>
           if includes_str ?m3 ''vibration''
           then triggerEffect ?p None None (Some ''OSC Signal'') ?a
           else Inr ?a)"
    by (rule conjunct1)
  then have o3: "onmessage bridgeExamples ?p (TextData ?m3) ?a = Inr a'"
    by (simp only: j3 option.case i3 simp_thms if_True a'1)
  from t4 have "onmessage bridgeExamples ?p (TextData ''null'') ?a =
      (case bridgeExamples ''null'' of
         Some data \<Rightarrow>
           if get_property data ''address'' = Inr (Some (JString ''/sensor/vibration''))
           then triggerEffect ?p None None (Some ''OSC Signal'') ?a
           else Inr ?a
       | None \<Rightarrow>
           if includes_str ''null'' ''vibration''
           then triggerEffect ?p None None (Some ''OSC Signal'') ?a
           else Inr ?a)"
    by (rule conjunct1)
  then have o4: "onmessage bridgeExamples ?p (TextData ''null'') ?a = Inr ?a"
    by (simp only: jn option.case g4 simp_thms if_False)
  have hd: "\<And>m. handle bridgeExamples ?p (SocketMessage (TextData m)) ?a
      = onmessage bridgeExamples ?p (TextData m) ?a"
    by simp
  have c1: "rippleCount (step bridgeExamples (?p, SocketMessage (TextData ?m1)) ?a) = 1"
    by (simp only: step_def fst_conv snd_conv hd o1 settle_Inr rippleCount_effects a'3)
  have c2: "rippleCount (step bridgeExamples (?p, SocketMessage (TextData ?m2)) ?a) = 0"
    by (simp only: step_def fst_conv snd_conv hd o2 settle_Inr rippleCount_effects m)
  have c3: "rippleCount (step bridgeExamples (?p, SocketMessage (TextData ?m3)) ?a) = 1"
    by (simp only: step_def fst_conv snd_conv hd o3 settle_Inr rippleCount_effects a'3)
  have c4: "rippleCount (step bridgeExamples (?p, SocketMessage (TextData ''null'')) ?a) = 0"
    by (simp only: step_def fst_conv snd_conv hd o4 settle_Inr rippleCount_effects m)
  from r c1 c2 c3 jn c4 show ?thesis by (intro conjI)
qed

end
